theory Spec2Isabelle
  imports Main
begin

section \<open>Errors and responses\<close>

text \<open>
  The controller raises three response errors, each with its message. Two further
  failures can end a request: a \<open>TypeError\<close> (a property read on \<open>undefined\<close>, or a
  \<open>null\<close> entity handed to the store) and a statement the store rejects. An external
  collaborator (workflow runner, hooks) rejects with an error of its own.
\<close>

datatype error =
    BadRequestError string
  | NotFoundError string
  | UnauthorizedError string
  | TypeError
  | QueryFailedError string
  | CollaboratorError string

text \<open>The body \<open>{ success: true }\<close> both handlers return.\<close>

record response =
  success :: bool

text \<open>\<open>UsersController.ERROR_MESSAGES.CHANGE_ROLE\<close>.\<close>

definition NO_MEMBER :: string where
  "NO_MEMBER = ''Member cannot change role for any user''"

definition MISSING_NEW_ROLE_KEY :: string where
  "MISSING_NEW_ROLE_KEY = ''Expected `newRole` to exist''"

definition MISSING_NEW_ROLE_VALUE :: string where
  "MISSING_NEW_ROLE_VALUE = ''Expected `newRole` to have `name` and `scope`''"

definition NO_USER :: string where
  "NO_USER = ''Target user not found''"

definition NO_ADMIN_ON_OWNER :: string where
  "NO_ADMIN_ON_OWNER = ''Admin cannot change role on global owner''"

definition NO_OWNER_ON_OWNER :: string where
  "NO_OWNER_ON_OWNER = ''Owner cannot change role on global owner''"

definition NO_USER_TO_OWNER :: string where
  "NO_USER_TO_OWNER = ''Cannot promote user to global owner''"

text \<open>The messages of \<open>deleteUser\<close>, written inline in the source.\<close>

definition DELETE_OWN_USER :: string where
  "DELETE_OWN_USER = ''Cannot delete your own user''"

definition DELETE_SAME_TRANSFEREE :: string where
  "DELETE_SAME_TRANSFEREE =
     ''Request to delete a user failed because the user to delete and the transferee are the same user''"

definition DELETE_NOT_FOUND :: string where
  "DELETE_NOT_FOUND =
     ''Request to delete a user failed because the ID of the user to delete and/or the ID of the transferee were not found in DB''"

definition DELETE_OWN_USER_LOG :: string where
  "DELETE_OWN_USER_LOG =
     ''Request to delete a user failed because it attempted to delete the requesting user''"

section \<open>Entities\<close>

text \<open>
  Modelled from the spec: the entity declarations (\<open>Role\<close>, \<open>User\<close>, \<open>WorkflowEntity\<close>,
  \<open>CredentialsEntity\<close>, \<open>SharedWorkflow\<close>, \<open>SharedCredentials\<close>, \<open>AuthIdentity\<close>) are
  imported by the controller and declared elsewhere. Each record keeps the columns the
  controller reads or writes. A role is a (scope, name) pair with the id the ownership
  links refer to; an ownership link associates a user id, a resource id and a role id.
\<close>

record role =
  role_id :: string
  scope :: string
  name :: string

record user =
  user_id :: string
  globalRole :: role
  isPending :: bool

record workflow_entity =
  workflow_id :: string
  active :: bool

record credentials_entity =
  credentials_id :: string

record shared_workflow =
  sw_userId :: string
  sw_workflowId :: string
  sw_roleId :: string

record shared_credentials =
  sc_userId :: string
  sc_credentialsId :: string
  sc_roleId :: string

record auth_identity =
  ai_userId :: string
  ai_providerId :: string

text \<open>The tables of the store, each a list of rows.\<close>

record database =
  users :: "user list"
  workflows :: "workflow_entity list"
  credentials :: "credentials_entity list"
  sharedWorkflows :: "shared_workflow list"
  sharedCredentials :: "shared_credentials list"
  authIdentities :: "auth_identity list"

text \<open>\<open>ITelemetryUserDeletionData\<close>: the last two fields are optional.\<close>

record telemetry_data =
  td_user_id :: string
  target_user_old_status :: string
  target_user_id :: string
  migration_strategy :: "string option"
  migration_user_id :: "string option"

text \<open>
  Modelled from the spec: \<open>userService.toPublic\<close> gives the target's public
  representation; its code is not part of the controller.
\<close>

record public_user =
  pu_id :: string
  pu_globalRole :: role
  pu_isPending :: bool

definition toPublic :: "user \<Rightarrow> public_user" where
  "toPublic u = \<lparr>pu_id = user_id u, pu_globalRole = globalRole u, pu_isPending = isPending u\<rparr>"

section \<open>Requests\<close>

text \<open>
  \<open>UserRequest.Delete\<close>: \<open>req.user\<close>, \<open>req.params.id\<close> and the optional
  \<open>req.query.transferId\<close>. \<open>UserRequest.ChangeRole\<close>: \<open>req.user\<close>, \<open>req.params.id\<close> and
  the optional \<open>req.body.newRole\<close>, whose \<open>name\<close> and \<open>scope\<close> may be missing.
\<close>

record delete_request =
  dr_user :: user
  dr_id :: string
  dr_transferId :: "string option"

record new_role =
  nr_scope :: "string option"
  nr_name :: "string option"

record change_role_request =
  cr_user :: user
  cr_id :: string
  cr_newRole :: "new_role option"

text \<open>
  JavaScript truthiness of an optional string: \<open>undefined\<close> and the empty string are
  falsy. The source tests \<open>transferId\<close>, \<open>newRole.name\<close> and \<open>newRole.scope\<close> this way.
\<close>

definition truthy :: "string option \<Rightarrow> bool" where
  "truthy s = (case s of None \<Rightarrow> False | Some v \<Rightarrow> v \<noteq> [])"

section \<open>Collaborators and the observable world\<close>

text \<open>
  Every call the controller makes on the store or on an external collaborator is
  recorded, in call order, in a trace. The trace is what ordering properties are
  stated on; a rolled back transaction restores the tables and keeps the trace.
\<close>

datatype event =
    LoggerDebug string
  | UserFindMany "string option list"
  | UserFindOne string
  | UserUpdate string role
  | TransactionBegin
  | TransactionCommit
  | TransactionRollback
  | SharedWorkflowFind string string
  | SharedWorkflowDelete "user option" "string list"
  | SharedWorkflowUpdate user role "user option"
  | SharedCredentialsFind string string
  | SharedCredentialsDelete "user option" "string list"
  | SharedCredentialsUpdate user role "user option"
  | AuthIdentityDelete string
  | UserDelete string
  | WorkflowRemove "string list"
  | CredentialsRemove "string list"
  | ActiveWorkflowRunnerRemove string
  | OnUserDeletion user telemetry_data bool
  | ExternalHooksRun string public_user

record world =
  db :: database
  trace :: "event list"

text \<open>
  The services whose code is not part of the controller are parameters: the role
  directory (total, as in the spec's interface \<open>findCachedRole(scope, name) \<rightarrow> Role\<close>),
  and for each external call whether its promise resolves (\<open>None\<close>) or rejects.
\<close>

record collaborators =
  findWorkflowOwnerRole :: role
  findCredentialOwnerRole :: role
  findCached :: "string \<Rightarrow> string \<Rightarrow> role"
  activeWorkflowRunner_remove :: "string \<Rightarrow> error option"
  internalHooks_onUserDeletion :: "telemetry_data \<Rightarrow> error option"
  externalHooks_run :: "string \<Rightarrow> public_user \<Rightarrow> error option"

type_synonym step = "world \<Rightarrow> error option \<times> world"

definition emit :: "event \<Rightarrow> world \<Rightarrow> world" where
  "emit e w = w\<lparr>trace := trace w @ [e]\<rparr>"

text \<open>Awaiting one call after another: a rejection skips what follows.\<close>

definition andThen :: "step \<Rightarrow> step \<Rightarrow> step" where
  "andThen f g w = (case f w of (None, w') \<Rightarrow> g w' | (Some e, w') \<Rightarrow> (Some e, w'))"

text \<open>
  \<open>getManager().transaction(body)\<close>: the body's statements commit together, or, when
  the body rejects, none does and the rejection is passed on.
\<close>

definition transaction :: "step \<Rightarrow> step" where
  "transaction body w =
     (case body (emit TransactionBegin w) of
        (None, w') \<Rightarrow> (None, emit TransactionCommit w')
      | (Some e, w') \<Rightarrow> (Some e, emit TransactionRollback (w'\<lparr>db := db w\<rparr>)))"

section \<open>Store operations\<close>

text \<open>
  Modelled from the spec (User Directory and Resource Ownership Store of its interface
  section) and from the criteria the controller passes; the store itself is a library.
  A criterion whose value is \<open>undefined\<close> does not restrict the rows.
\<close>

definition userService_findMany :: "string option list \<Rightarrow> world \<Rightarrow> user list \<times> world" where
  "userService_findMany ids w =
     (filter (\<lambda>u. Some (user_id u) \<in> set ids) (users (db w)), emit (UserFindMany ids) w)"

definition userService_findOne :: "string \<Rightarrow> world \<Rightarrow> user option \<times> world" where
  "userService_findOne uid w =
     (find (\<lambda>u. user_id u = uid) (users (db w)), emit (UserFindOne uid) w)"

definition userService_update :: "string \<Rightarrow> role \<Rightarrow> world \<Rightarrow> world" where
  "userService_update uid r w =
     emit (UserUpdate uid r)
       (w\<lparr>db := (db w)\<lparr>users :=
          map (\<lambda>u. if user_id u = uid then u\<lparr>globalRole := r\<rparr> else u) (users (db w))\<rparr>\<rparr>)"

definition matches_user :: "user option \<Rightarrow> string \<Rightarrow> bool" where
  "matches_user crit uid = (case crit of None \<Rightarrow> True | Some u \<Rightarrow> user_id u = uid)"

definition sw_key :: "shared_workflow \<Rightarrow> string \<times> string" where
  "sw_key r = (sw_userId r, sw_workflowId r)"

definition sc_key :: "shared_credentials \<Rightarrow> string \<times> string" where
  "sc_key r = (sc_userId r, sc_credentialsId r)"

definition find_SharedWorkflow :: "string \<Rightarrow> string \<Rightarrow> world \<Rightarrow> shared_workflow list \<times> world" where
  "find_SharedWorkflow uid rid w =
     (filter (\<lambda>r. sw_userId r = uid \<and> sw_roleId r = rid) (sharedWorkflows (db w)),
      emit (SharedWorkflowFind uid rid) w)"

definition find_SharedCredentials :: "string \<Rightarrow> string \<Rightarrow> world \<Rightarrow> shared_credentials list \<times> world" where
  "find_SharedCredentials uid rid w =
     (filter (\<lambda>r. sc_userId r = uid \<and> sc_roleId r = rid) (sharedCredentials (db w)),
      emit (SharedCredentialsFind uid rid) w)"

definition delete_SharedWorkflow :: "user option \<Rightarrow> string list \<Rightarrow> step" where
  "delete_SharedWorkflow u ids w =
     (None, emit (SharedWorkflowDelete u ids)
        (w\<lparr>db := (db w)\<lparr>sharedWorkflows :=
           filter (\<lambda>r. \<not> (matches_user u (sw_userId r) \<and> sw_workflowId r \<in> set ids))
             (sharedWorkflows (db w))\<rparr>\<rparr>))"

definition delete_SharedCredentials :: "user option \<Rightarrow> string list \<Rightarrow> step" where
  "delete_SharedCredentials u ids w =
     (None, emit (SharedCredentialsDelete u ids)
        (w\<lparr>db := (db w)\<lparr>sharedCredentials :=
           filter (\<lambda>r. \<not> (matches_user u (sc_userId r) \<and> sc_credentialsId r \<in> set ids))
             (sharedCredentials (db w))\<rparr>\<rparr>))"

text \<open>
  \<open>update(SharedWorkflow, { user: from, role }, { user: to })\<close> re-points the matching
  rows. The table's key is (user id, workflow id): a statement that would leave two rows
  with one key is rejected and changes nothing. With \<open>to\<close> undefined there is no value
  to set, which the store rejects as well.
\<close>

definition update_SharedWorkflow :: "user \<Rightarrow> role \<Rightarrow> user option \<Rightarrow> step" where
  "update_SharedWorkflow from r to w =
     (let w1 = emit (SharedWorkflowUpdate from r to) w in
      case to of
        None \<Rightarrow> (Some (QueryFailedError ''UpdateValuesMissingError''), w1)
      | Some t \<Rightarrow>
          (let rows = map (\<lambda>l. if sw_userId l = user_id from \<and> sw_roleId l = role_id r
                                then l\<lparr>sw_userId := user_id t\<rparr> else l)
                        (sharedWorkflows (db w1))
           in if distinct (map sw_key rows)
              then (None, w1\<lparr>db := (db w1)\<lparr>sharedWorkflows := rows\<rparr>\<rparr>)
              else (Some (QueryFailedError ''duplicate key''), w1)))"

definition update_SharedCredentials :: "user \<Rightarrow> role \<Rightarrow> user option \<Rightarrow> step" where
  "update_SharedCredentials from r to w =
     (let w1 = emit (SharedCredentialsUpdate from r to) w in
      case to of
        None \<Rightarrow> (Some (QueryFailedError ''UpdateValuesMissingError''), w1)
      | Some t \<Rightarrow>
          (let rows = map (\<lambda>l. if sc_userId l = user_id from \<and> sc_roleId l = role_id r
                                then l\<lparr>sc_userId := user_id t\<rparr> else l)
                        (sharedCredentials (db w1))
           in if distinct (map sc_key rows)
              then (None, w1\<lparr>db := (db w1)\<lparr>sharedCredentials := rows\<rparr>\<rparr>)
              else (Some (QueryFailedError ''duplicate key''), w1)))"

definition delete_AuthIdentity :: "string \<Rightarrow> step" where
  "delete_AuthIdentity uid w =
     (None, emit (AuthIdentityDelete uid)
        (w\<lparr>db := (db w)\<lparr>authIdentities :=
           filter (\<lambda>a. ai_userId a \<noteq> uid) (authIdentities (db w))\<rparr>\<rparr>))"

text \<open>
  Deleting a user row: the store's cascade rules remove the ownership links that still
  name the user (the source: "This will remove all shared workflows and credentials not
  owned").
\<close>

definition delete_User :: "string \<Rightarrow> step" where
  "delete_User uid w =
     (None, emit (UserDelete uid)
        (w\<lparr>db := (db w)\<lparr>
           users := filter (\<lambda>u. user_id u \<noteq> uid) (users (db w)),
           sharedWorkflows := filter (\<lambda>l. sw_userId l \<noteq> uid) (sharedWorkflows (db w)),
           sharedCredentials := filter (\<lambda>l. sc_userId l \<noteq> uid) (sharedCredentials (db w))\<rparr>\<rparr>))"

text \<open>
  \<open>remove(entities)\<close> deletes the rows of the given entities, and with them the
  ownership links of those resources. A \<open>null\<close> among the entities (a link whose
  relation did not load) is a \<open>TypeError\<close>.
\<close>

definition remove_workflows :: "workflow_entity list \<Rightarrow> step" where
  "remove_workflows ws w =
     (let ids = map workflow_id ws in
      (None, emit (WorkflowRemove ids)
         (w\<lparr>db := (db w)\<lparr>
            workflows := filter (\<lambda>x. workflow_id x \<notin> set ids) (workflows (db w)),
            sharedWorkflows :=
              filter (\<lambda>l. sw_workflowId l \<notin> set ids) (sharedWorkflows (db w))\<rparr>\<rparr>)))"

definition remove_credentials :: "credentials_entity option list \<Rightarrow> step" where
  "remove_credentials cs w =
     (if None \<in> set cs then (Some TypeError, w)
      else
        (let ids = map credentials_id (List.map_filter (\<lambda>c. c) cs) in
         (None, emit (CredentialsRemove ids)
            (w\<lparr>db := (db w)\<lparr>
               credentials := filter (\<lambda>x. credentials_id x \<notin> set ids) (credentials (db w)),
               sharedCredentials :=
                 filter (\<lambda>l. sc_credentialsId l \<notin> set ids) (sharedCredentials (db w))\<rparr>\<rparr>))))"

text \<open>The relations \<open>workflow\<close> and \<open>credentials\<close> of an ownership link.\<close>

definition workflow_of :: "database \<Rightarrow> shared_workflow \<Rightarrow> workflow_entity option" where
  "workflow_of d l = find (\<lambda>x. workflow_id x = sw_workflowId l) (workflows d)"

definition credentials_of :: "database \<Rightarrow> shared_credentials \<Rightarrow> credentials_entity option" where
  "credentials_of d l = find (\<lambda>x. credentials_id x = sc_credentialsId l) (credentials d)"

section \<open>External calls\<close>

definition logger_debug :: "string \<Rightarrow> world \<Rightarrow> world" where
  "logger_debug msg w = emit (LoggerDebug msg) w"

definition call_onUserDeletion :: "collaborators \<Rightarrow> user \<Rightarrow> telemetry_data \<Rightarrow> step" where
  "call_onUserDeletion env u td w =
     (internalHooks_onUserDeletion env td, emit (OnUserDeletion u td False) w)"

definition call_externalHooks_run :: "collaborators \<Rightarrow> string \<Rightarrow> public_user \<Rightarrow> step" where
  "call_externalHooks_run env hook p w =
     (externalHooks_run env hook p, emit (ExternalHooksRun hook p) w)"

text \<open>
  \<open>Promise.all(owned.map(async ({ workflow }) => ...))\<close>: every callback starts, in list
  order, and calls \<open>activeWorkflowRunner.remove\<close> when its workflow is active; each
  callback resolves to its workflow or rejects.
\<close>

fun start_deactivations ::
  "collaborators \<Rightarrow> workflow_entity option list \<Rightarrow> world \<Rightarrow> (error + workflow_entity) list \<times> world"
where
  "start_deactivations env [] w = ([], w)"
| "start_deactivations env (None # rest) w =
     (let (rs, w') = start_deactivations env rest w in (Inl TypeError # rs, w'))"
| "start_deactivations env (Some x # rest) w =
     (if active x then
        (let (rs, w') =
               start_deactivations env rest (emit (ActiveWorkflowRunnerRemove (workflow_id x)) w)
         in ((case activeWorkflowRunner_remove env (workflow_id x) of
                None \<Rightarrow> Inr x
              | Some e \<Rightarrow> Inl e) # rs, w'))
      else
        (let (rs, w') = start_deactivations env rest w in (Inr x # rs, w')))"

text \<open>\<open>Promise.all\<close> resolves to all the values, or rejects with a rejection among them
  (here: the first in list order).\<close>

fun promise_all :: "(error + 'a) list \<Rightarrow> error + 'a list" where
  "promise_all [] = Inr []"
| "promise_all (Inl e # rs) = Inl e"
| "promise_all (Inr x # rs) = (case promise_all rs of Inl e \<Rightarrow> Inl e | Inr xs \<Rightarrow> Inr (x # xs))"

section \<open>deleteUser\<close>

text \<open>
  The transaction of the transfer path (source lines 224 to 277), statement by
  statement: the workflow ids the target owns, the transferee's links on those ids
  deleted, the target's owner links re-pointed; the same for credentials; then the
  target's authentication identities and the target itself.
\<close>

definition transfer_transaction :: "role \<Rightarrow> role \<Rightarrow> user \<Rightarrow> user option \<Rightarrow> step" where
  "transfer_transaction workflowOwnerRole credentialOwnerRole userToDelete transferee w =
     (let (ownedW, w1) =
            find_SharedWorkflow (user_id userToDelete) (role_id workflowOwnerRole) w;
          sharedWorkflowIds = map sw_workflowId ownedW
      in andThen (delete_SharedWorkflow transferee sharedWorkflowIds)
        (andThen (update_SharedWorkflow userToDelete workflowOwnerRole transferee)
           (\<lambda>w2.
              let (ownedC, w3) =
                    find_SharedCredentials (user_id userToDelete) (role_id credentialOwnerRole) w2;
                  sharedCredentialIds = map sc_credentialsId ownedC
              in andThen (delete_SharedCredentials transferee sharedCredentialIds)
                (andThen (update_SharedCredentials userToDelete credentialOwnerRole transferee)
                (andThen (delete_AuthIdentity (user_id userToDelete))
                         (delete_User (user_id userToDelete)))) w3)) w1)"

text \<open>
  The transaction of the cascade path (source lines 299 to 314). The owned links were
  read, with their relations, before the transaction began.
\<close>

definition cascade_transaction ::
  "collaborators \<Rightarrow> user \<Rightarrow> (shared_workflow \<times> workflow_entity option) list \<Rightarrow>
   (shared_credentials \<times> credentials_entity option) list \<Rightarrow> step"
where
  "cascade_transaction env userToDelete ownedSharedWorkflows ownedSharedCredentials w =
     (let (outcomes, w1) = start_deactivations env (map snd ownedSharedWorkflows) w in
      case promise_all outcomes of
        Inl e \<Rightarrow> (Some e, w1)
      | Inr ownedWorkflows \<Rightarrow>
          andThen (remove_workflows ownedWorkflows)
         (andThen (remove_credentials (map snd ownedSharedCredentials))
         (andThen (delete_AuthIdentity (user_id userToDelete))
                  (delete_User (user_id userToDelete)))) w1)"

text \<open>
  What both paths do once their transaction has committed (source lines 279 to 285 and
  316 to 323): \<open>void internalHooks.onUserDeletion(...)\<close> drops the promise, so its outcome
  is never looked at; \<open>await externalHooks.run(...)\<close> is awaited, so its rejection is the
  handler's.
\<close>

definition after_commit ::
  "collaborators \<Rightarrow> delete_request \<Rightarrow> telemetry_data \<Rightarrow> user \<Rightarrow> world \<Rightarrow> (error + response) \<times> world"
where
  "after_commit env req telemetryData userToDelete w =
     (let w1 = snd (call_onUserDeletion env (dr_user req) telemetryData w) in
      case call_externalHooks_run env ''user.deleted'' (toPublic userToDelete) w1 of
        (Some e, w2) \<Rightarrow> (Inl e, w2)
      | (None, w2) \<Rightarrow> (Inr \<lparr>success = True\<rparr>, w2))"

definition telemetry_of :: "delete_request \<Rightarrow> user \<Rightarrow> telemetry_data" where
  "telemetry_of req userToDelete =
     (let transferId = dr_transferId req;
          t0 = \<lparr>td_user_id = user_id (dr_user req),
                target_user_old_status = (if isPending userToDelete then ''invited'' else ''active''),
                target_user_id = dr_id req,
                migration_strategy = None,
                migration_user_id = None\<rparr>;
          t1 = t0\<lparr>migration_strategy :=
                    Some (if truthy transferId then ''transfer_data'' else ''delete_data'')\<rparr>
      in if truthy transferId then t1\<lparr>migration_user_id := transferId\<rparr> else t1)"

definition deleteUser ::
  "collaborators \<Rightarrow> delete_request \<Rightarrow> world \<Rightarrow> (error + response) \<times> world"
where
  "deleteUser env req w =
     (let idToDelete = dr_id req in
      if user_id (dr_user req) = idToDelete then
        (Inl (BadRequestError DELETE_OWN_USER), logger_debug DELETE_OWN_USER_LOG w)
      else
        (let transferId = dr_transferId req in
         if transferId = Some idToDelete then
           (Inl (BadRequestError DELETE_SAME_TRANSFEREE), w)
         else
           (let (found, w1) = userService_findMany [transferId, Some idToDelete] w in
            if found = [] \<or> (truthy transferId \<and> length found \<noteq> 2) then
              (Inl (NotFoundError DELETE_NOT_FOUND), w1)
            else
              (case find (\<lambda>u. user_id u = dr_id req) found of
                 None \<Rightarrow> (Inl TypeError, w1)
               | Some userToDelete \<Rightarrow>
                   (let telemetryData = telemetry_of req userToDelete;
                        workflowOwnerRole = findWorkflowOwnerRole env;
                        credentialOwnerRole = findCredentialOwnerRole env
                    in if truthy transferId then
                         (let transferee = find (\<lambda>u. Some (user_id u) = transferId) found in
                          case transaction
                                 (transfer_transaction workflowOwnerRole credentialOwnerRole
                                    userToDelete transferee) w1 of
                            (Some e, w2) \<Rightarrow> (Inl e, w2)
                          | (None, w2) \<Rightarrow> after_commit env req telemetryData userToDelete w2)
                       else
                         (let (ownedW, w2) =
                                find_SharedWorkflow (user_id userToDelete)
                                  (role_id workflowOwnerRole) w1;
                              (ownedC, w3) =
                                find_SharedCredentials (user_id userToDelete)
                                  (role_id credentialOwnerRole) w2;
                              ownedSharedWorkflows =
                                map (\<lambda>l. (l, workflow_of (db w1) l)) ownedW;
                              ownedSharedCredentials =
                                map (\<lambda>l. (l, credentials_of (db w1) l)) ownedC
                          in case transaction
                                    (cascade_transaction env userToDelete ownedSharedWorkflows
                                       ownedSharedCredentials) w3 of
                               (Some e, w4) \<Rightarrow> (Inl e, w4)
                             | (None, w4) \<Rightarrow>
                                 after_commit env req telemetryData userToDelete w4))))))"

section \<open>changeRole\<close>

text \<open>
  The handler, check by check in the source's order. \<open>!newRole.name || !newRole.scope\<close>
  holds when either is absent or the empty string; past that check both are present,
  which the pattern match records.
\<close>

definition changeRole ::
  "collaborators \<Rightarrow> change_role_request \<Rightarrow> world \<Rightarrow> (error + response) \<times> world"
where
  "changeRole env req w =
     (if scope (globalRole (cr_user req)) = ''global'' \<and>
         name (globalRole (cr_user req)) = ''member'' then
        (Inl (UnauthorizedError NO_MEMBER), w)
      else
        (case cr_newRole req of
           None \<Rightarrow> (Inl (BadRequestError MISSING_NEW_ROLE_KEY), w)
         | Some newRole \<Rightarrow>
             (case (nr_name newRole, nr_scope newRole) of
                (Some newName, Some newScope) \<Rightarrow>
                  if newName = [] \<or> newScope = [] then
                    (Inl (BadRequestError MISSING_NEW_ROLE_VALUE), w)
                  else if newScope = ''global'' \<and> newName = ''owner'' then
                    (Inl (UnauthorizedError NO_USER_TO_OWNER), w)
                  else
                    (let (target, w1) = userService_findOne (cr_id req) w in
                     case target of
                       None \<Rightarrow> (Inl (NotFoundError NO_USER), w1)
                     | Some targetUser \<Rightarrow>
                         if scope (globalRole (cr_user req)) = ''global'' \<and>
                            name (globalRole (cr_user req)) = ''admin'' \<and>
                            scope (globalRole targetUser) = ''global'' \<and>
                            name (globalRole targetUser) = ''owner'' then
                           (Inl (UnauthorizedError NO_ADMIN_ON_OWNER), w1)
                         else if scope (globalRole (cr_user req)) = ''global'' \<and>
                            name (globalRole (cr_user req)) = ''owner'' \<and>
                            scope (globalRole targetUser) = ''global'' \<and>
                            name (globalRole targetUser) = ''owner'' then
                           (Inl (UnauthorizedError NO_OWNER_ON_OWNER), w1)
                         else
                           (let roleToSet = findCached env newScope newName;
                                w2 = userService_update (user_id targetUser) roleToSet w1
                            in (Inr \<lparr>success = True\<rparr>, w2)))
              | _ \<Rightarrow> (Inl (BadRequestError MISSING_NEW_ROLE_VALUE), w))))"

section \<open>The guard table of the role mutation guard\<close>

text \<open>
  The specification's table, written from its words: seven guards in order, each with
  the error it fails with. \<open>target\<close> is the result of looking the target user up. A
  name or scope counts as missing when it is absent or empty. The table is compared
  below with \<open>changeRole\<close>, which is written from the source.
\<close>

definition has_global_role :: "user \<Rightarrow> string \<Rightarrow> bool" where
  "has_global_role u n = (scope (globalRole u) = ''global'' \<and> name (globalRole u) = n)"

definition target_is_owner :: "user option \<Rightarrow> bool" where
  "target_is_owner target = (case target of None \<Rightarrow> False | Some t \<Rightarrow> has_global_role t ''owner'')"

definition guard_table :: "change_role_request \<Rightarrow> user option \<Rightarrow> (bool \<times> error) list" where
  "guard_table req target =
     [(has_global_role (cr_user req) ''member'', UnauthorizedError NO_MEMBER),
      (cr_newRole req = None, BadRequestError MISSING_NEW_ROLE_KEY),
      ((case cr_newRole req of
          None \<Rightarrow> False
        | Some r \<Rightarrow> \<not> (truthy (nr_name r) \<and> truthy (nr_scope r))),
       BadRequestError MISSING_NEW_ROLE_VALUE),
      ((case cr_newRole req of
          None \<Rightarrow> False
        | Some r \<Rightarrow> nr_scope r = Some ''global'' \<and> nr_name r = Some ''owner''),
       UnauthorizedError NO_USER_TO_OWNER),
      (target = None, NotFoundError NO_USER),
      (has_global_role (cr_user req) ''admin'' \<and> target_is_owner target,
       UnauthorizedError NO_ADMIN_ON_OWNER),
      (has_global_role (cr_user req) ''owner'' \<and> target_is_owner target,
       UnauthorizedError NO_OWNER_ON_OWNER)]"

text \<open>The error of the first guard that matches, if any.\<close>

definition first_failing :: "(bool \<times> error) list \<Rightarrow> error option" where
  "first_failing gs = map_option snd (find fst gs)"

text \<open>The users table after the target's role has been set.\<close>

definition with_role :: "string \<Rightarrow> role \<Rightarrow> user list \<Rightarrow> user list" where
  "with_role uid r us = map (\<lambda>u. if user_id u = uid then u\<lparr>globalRole := r\<rparr> else u) us"

section \<open>Invariants of the store\<close>

definition is_global_owner :: "user \<Rightarrow> bool" where
  "is_global_owner u = (scope (globalRole u) = ''global'' \<and> name (globalRole u) = ''owner'')"

definition global_owners :: "database \<Rightarrow> user list" where
  "global_owners d = filter is_global_owner (users d)"

definition at_most_one_owner :: "database \<Rightarrow> bool" where
  "at_most_one_owner d = (length (global_owners d) \<le> 1)"

text \<open>
  What the store enforces on its own: user ids are generated, hence unique and not
  empty; an ownership link is keyed by (user id, resource id); a resource by its id.
\<close>

definition user_ids_ok :: "database \<Rightarrow> bool" where
  "user_ids_ok d = (distinct (map user_id (users d)) \<and> [] \<notin> set (map user_id (users d)))"

definition link_keys_ok :: "database \<Rightarrow> bool" where
  "link_keys_ok d =
     (distinct (map sw_key (sharedWorkflows d)) \<and> distinct (map sc_key (sharedCredentials d)))"

text \<open>The role directory answers a lookup with the role of that scope and name.\<close>

definition role_directory_ok :: "collaborators \<Rightarrow> bool" where
  "role_directory_ok env =
     (\<forall>s n. scope (findCached env s n) = s \<and> name (findCached env s n) = n)"

section \<open>Reading a trace\<close>

text \<open>
  \<open>all_before P Q es\<close>: no \<open>P\<close> event stands at or after the first \<open>Q\<close> event, so every
  \<open>P\<close> event strictly precedes every \<open>Q\<close> event.
\<close>

definition all_before :: "('a \<Rightarrow> bool) \<Rightarrow> ('a \<Rightarrow> bool) \<Rightarrow> 'a list \<Rightarrow> bool" where
  "all_before P Q es = (\<not> list_ex P (dropWhile (\<lambda>e. \<not> Q e) es))"

definition occurrences :: "'a \<Rightarrow> 'a list \<Rightarrow> nat" where
  "occurrences e es = length (filter (\<lambda>x. x = e) es)"

fun is_user_lookup :: "event \<Rightarrow> bool" where
  "is_user_lookup (UserFindMany ids) = True"
| "is_user_lookup (UserFindOne uid) = True"
| "is_user_lookup e = False"

fun is_telemetry :: "event \<Rightarrow> bool" where
  "is_telemetry (OnUserDeletion u td p) = True"
| "is_telemetry e = False"

fun is_SharedWorkflowDelete :: "event \<Rightarrow> bool" where
  "is_SharedWorkflowDelete (SharedWorkflowDelete u ids) = True"
| "is_SharedWorkflowDelete e = False"

fun is_SharedWorkflowUpdate :: "event \<Rightarrow> bool" where
  "is_SharedWorkflowUpdate (SharedWorkflowUpdate u r t) = True"
| "is_SharedWorkflowUpdate e = False"

fun is_SharedCredentialsDelete :: "event \<Rightarrow> bool" where
  "is_SharedCredentialsDelete (SharedCredentialsDelete u ids) = True"
| "is_SharedCredentialsDelete e = False"

fun is_SharedCredentialsUpdate :: "event \<Rightarrow> bool" where
  "is_SharedCredentialsUpdate (SharedCredentialsUpdate u r t) = True"
| "is_SharedCredentialsUpdate e = False"

fun is_WorkflowRemove :: "event \<Rightarrow> bool" where
  "is_WorkflowRemove (WorkflowRemove ids) = True"
| "is_WorkflowRemove e = False"

text \<open>The events that change the tables.\<close>

fun is_mutation :: "event \<Rightarrow> bool" where
  "is_mutation (UserUpdate uid r) = True"
| "is_mutation (SharedWorkflowDelete u ids) = True"
| "is_mutation (SharedWorkflowUpdate u r t) = True"
| "is_mutation (SharedCredentialsDelete u ids) = True"
| "is_mutation (SharedCredentialsUpdate u r t) = True"
| "is_mutation (AuthIdentityDelete uid) = True"
| "is_mutation (UserDelete uid) = True"
| "is_mutation (WorkflowRemove ids) = True"
| "is_mutation (CredentialsRemove ids) = True"
| "is_mutation e = False"

text \<open>
  The events of a transaction that is under way: its begin, the statements of its body
  and the deactivations the body awaits.
\<close>

fun is_inner :: "event \<Rightarrow> bool" where
  "is_inner TransactionBegin = True"
| "is_inner (SharedWorkflowFind uid rid) = True"
| "is_inner (SharedWorkflowDelete u ids) = True"
| "is_inner (SharedWorkflowUpdate u r t) = True"
| "is_inner (SharedCredentialsFind uid rid) = True"
| "is_inner (SharedCredentialsDelete u ids) = True"
| "is_inner (SharedCredentialsUpdate u r t) = True"
| "is_inner (AuthIdentityDelete uid) = True"
| "is_inner (UserDelete uid) = True"
| "is_inner (WorkflowRemove ids) = True"
| "is_inner (CredentialsRemove ids) = True"
| "is_inner (ActiveWorkflowRunnerRemove i) = True"
| "is_inner e = False"

text \<open>The events a call has added to the trace, and whether it committed a transaction.\<close>

definition new_events :: "world \<Rightarrow> world \<Rightarrow> event list" where
  "new_events w w' = drop (length (trace w)) (trace w')"

definition committed :: "world \<Rightarrow> world \<Rightarrow> bool" where
  "committed w w' = (TransactionCommit \<in> set (new_events w w'))"

text \<open>The ids of the workflows a list of loaded relations deactivates.\<close>

definition active_ids :: "workflow_entity option list \<Rightarrow> string list" where
  "active_ids ws = map workflow_id (filter active (List.map_filter (\<lambda>x. x) ws))"

section \<open>A small instance\<close>

text \<open>
  Three users: the owner Ada, the member Bob, who owns the workflows W1 (active) and W2
  and the credential K1, and the admin Cy, who holds shared links on W1 and K1.
\<close>

definition global_owner_role :: role where
  "global_owner_role = \<lparr>role_id = ''1'', scope = ''global'', name = ''owner''\<rparr>"

definition global_member_role :: role where
  "global_member_role = \<lparr>role_id = ''2'', scope = ''global'', name = ''member''\<rparr>"

definition global_admin_role :: role where
  "global_admin_role = \<lparr>role_id = ''3'', scope = ''global'', name = ''admin''\<rparr>"

definition workflow_owner_role :: role where
  "workflow_owner_role = \<lparr>role_id = ''4'', scope = ''workflow'', name = ''owner''\<rparr>"

definition credential_owner_role :: role where
  "credential_owner_role = \<lparr>role_id = ''5'', scope = ''credential'', name = ''owner''\<rparr>"

definition ada :: user where
  "ada = \<lparr>user_id = ''ada'', globalRole = global_owner_role, isPending = False\<rparr>"

definition bob :: user where
  "bob = \<lparr>user_id = ''bob'', globalRole = global_member_role, isPending = True\<rparr>"

definition cy :: user where
  "cy = \<lparr>user_id = ''cy'', globalRole = global_admin_role, isPending = False\<rparr>"

definition sample_db :: database where
  "sample_db =
     \<lparr>users = [ada, bob, cy],
      workflows = [\<lparr>workflow_id = ''W1'', active = True\<rparr>, \<lparr>workflow_id = ''W2'', active = False\<rparr>],
      credentials = [\<lparr>credentials_id = ''K1''\<rparr>],
      sharedWorkflows =
        [\<lparr>sw_userId = ''bob'', sw_workflowId = ''W1'', sw_roleId = ''4''\<rparr>,
         \<lparr>sw_userId = ''cy'', sw_workflowId = ''W1'', sw_roleId = ''6''\<rparr>,
         \<lparr>sw_userId = ''bob'', sw_workflowId = ''W2'', sw_roleId = ''4''\<rparr>],
      sharedCredentials =
        [\<lparr>sc_userId = ''bob'', sc_credentialsId = ''K1'', sc_roleId = ''5''\<rparr>,
         \<lparr>sc_userId = ''cy'', sc_credentialsId = ''K1'', sc_roleId = ''7''\<rparr>],
      authIdentities = [\<lparr>ai_userId = ''bob'', ai_providerId = ''ldap''\<rparr>]\<rparr>"

definition sample_world :: world where
  "sample_world = \<lparr>db = sample_db, trace = []\<rparr>"

text \<open>Collaborators that all resolve, and two in which one external call rejects.\<close>

definition sample_env :: collaborators where
  "sample_env =
     \<lparr>findWorkflowOwnerRole = workflow_owner_role,
      findCredentialOwnerRole = credential_owner_role,
      findCached = (\<lambda>s n. \<lparr>role_id = s @ '':'' @ n, scope = s, name = n\<rparr>),
      activeWorkflowRunner_remove = (\<lambda>i. None),
      internalHooks_onUserDeletion = (\<lambda>t. None),
      externalHooks_run = (\<lambda>h p. None)\<rparr>"

definition failing_hooks_env :: collaborators where
  "failing_hooks_env =
     sample_env\<lparr>internalHooks_onUserDeletion := (\<lambda>t. Some (CollaboratorError ''telemetry'')),
                externalHooks_run := (\<lambda>h p. Some (CollaboratorError ''hook''))\<rparr>"

definition failing_telemetry_env :: collaborators where
  "failing_telemetry_env =
     sample_env\<lparr>internalHooks_onUserDeletion := (\<lambda>t. Some (CollaboratorError ''telemetry''))\<rparr>"

definition failing_runner_env :: collaborators where
  "failing_runner_env =
     sample_env\<lparr>activeWorkflowRunner_remove := (\<lambda>i. Some (CollaboratorError ''runner''))\<rparr>"

definition transfer_request :: delete_request where
  "transfer_request = \<lparr>dr_user = ada, dr_id = ''bob'', dr_transferId = Some ''cy''\<rparr>"

definition cascade_request :: delete_request where
  "cascade_request = \<lparr>dr_user = ada, dr_id = ''bob'', dr_transferId = None\<rparr>"

definition self_request :: delete_request where
  "self_request = \<lparr>dr_user = ada, dr_id = ''ada'', dr_transferId = Some ''ada''\<rparr>"

definition same_transferee_request :: delete_request where
  "same_transferee_request = \<lparr>dr_user = ada, dr_id = ''bob'', dr_transferId = Some ''bob''\<rparr>"


definition missing_same_request :: delete_request where
  "missing_same_request = \<lparr>dr_user = ada, dr_id = ''dan'', dr_transferId = Some ''dan''\<rparr>"

definition promote_request :: change_role_request where
  "promote_request =
     \<lparr>cr_user = ada, cr_id = ''bob'',
      cr_newRole = Some \<lparr>nr_scope = Some ''global'', nr_name = Some ''admin''\<rparr>\<rparr>"

definition to_owner_request :: change_role_request where
  "to_owner_request =
     \<lparr>cr_user = ada, cr_id = ''bob'',
      cr_newRole = Some \<lparr>nr_scope = Some ''global'', nr_name = Some ''owner''\<rparr>\<rparr>"

definition demote_owner_request :: change_role_request where
  "demote_owner_request =
     \<lparr>cr_user = cy, cr_id = ''ada'',
      cr_newRole = Some \<lparr>nr_scope = Some ''global'', nr_name = Some ''member''\<rparr>\<rparr>"

section \<open>Basic facts\<close>

lemma emit_simps: "db (emit e w) = db w" "trace (emit e w) = trace w @ [e]"
  by (simp_all add: emit_def)

lemma start_deactivations_db: "db (snd (start_deactivations env ws w)) = db w"
  by (induction env ws w rule: start_deactivations.induct) (auto simp: emit_simps split: prod.splits)

lemma start_deactivations_trace:
  "trace (snd (start_deactivations env ws w)) = trace w @ map ActiveWorkflowRunnerRemove (active_ids ws)"
  by (induction env ws w rule: start_deactivations.induct)
     (auto simp: emit_simps active_ids_def List.map_filter_simps split: prod.splits)

lemma start_deactivations_world:
  "start_deactivations env ws w = (rs, w') \<Longrightarrow>
     w' = w\<lparr>trace := trace w @ map ActiveWorkflowRunnerRemove (active_ids ws)\<rparr>"
  using start_deactivations_db [of env ws w] start_deactivations_trace [of env ws w]
  by (cases w; cases w') simp

lemmas step_defs = andThen_def delete_SharedWorkflow_def delete_SharedCredentials_def
  update_SharedWorkflow_def update_SharedCredentials_def delete_AuthIdentity_def delete_User_def
  remove_workflows_def remove_credentials_def find_SharedWorkflow_def find_SharedCredentials_def

lemma transfer_transaction_trace:
  "\<exists>evs. trace (snd (transfer_transaction wr cr u t w)) = trace w @ evs \<and> list_all is_inner evs"
  by (auto simp add: transfer_transaction_def step_defs emit_simps Let_def split: option.splits prod.splits)

lemma transfer_transaction_users:
  "fst (transfer_transaction wr cr u t w) = None \<Longrightarrow>
     users (db (snd (transfer_transaction wr cr u t w))) = filter (\<lambda>x. user_id x \<noteq> user_id u) (users (db w))"
  by (auto simp add: transfer_transaction_def step_defs emit_simps Let_def split: option.splits prod.splits if_splits)

lemma list_all_inner_runner: "list_all is_inner (map ActiveWorkflowRunnerRemove ids)"
  by (induction ids) auto

lemma cascade_transaction_trace:
  "\<exists>evs. trace (snd (cascade_transaction env u osw osc w)) = trace w @ evs \<and> list_all is_inner evs"
  by (auto simp add: cascade_transaction_def step_defs emit_simps Let_def list_all_inner_runner
      dest!: start_deactivations_world split: option.splits prod.splits sum.splits)

lemma cascade_transaction_users:
  "fst (cascade_transaction env u osw osc w) = None \<Longrightarrow>
     users (db (snd (cascade_transaction env u osw osc w))) = filter (\<lambda>x. user_id x \<noteq> user_id u) (users (db w))"
  by (auto simp add: cascade_transaction_def step_defs emit_simps Let_def
      dest!: start_deactivations_world split: option.splits prod.splits sum.splits if_splits)

lemma transaction_shape:
  assumes "\<And>v. \<exists>evs. trace (snd (body v)) = trace v @ evs \<and> list_all is_inner evs"
  shows "\<exists>mid. list_all is_inner mid \<and>
           (case fst (transaction body w) of
              None \<Rightarrow> trace (snd (transaction body w)) = trace w @ mid @ [TransactionCommit] \<and>
                      db (snd (transaction body w)) = db (snd (body (emit TransactionBegin w))) \<and>
                      fst (body (emit TransactionBegin w)) = None
            | Some e \<Rightarrow> trace (snd (transaction body w)) = trace w @ mid @ [TransactionRollback] \<and>
                      db (snd (transaction body w)) = db w)"
proof -
  obtain evs where evs: "trace (snd (body (emit TransactionBegin w))) = trace (emit TransactionBegin w) @ evs"
    "list_all is_inner evs"
    using assms by blast
  show ?thesis
    by (rule exI [of _ "TransactionBegin # evs"])
       (use evs in \<open>auto simp add: transaction_def emit_simps split: prod.splits option.splits\<close>)
qed

lemma find_in_filter:
  "(\<And>x. P x \<Longrightarrow> Q x) \<Longrightarrow> find P (filter Q xs) = find P xs"
  by (induction xs) auto

lemma find_user_id: "find (\<lambda>u. user_id u = i) us = Some t \<Longrightarrow> user_id t = i"
  by (induction us) (auto split: if_splits)


lemma inner_not_outer:
  "list_all is_inner es \<Longrightarrow>
     TransactionCommit \<notin> set es \<and> \<not> list_ex is_telemetry es \<and> \<not> list_ex is_user_lookup es"
  by (induction es) (auto elim: is_inner.elims)

lemma after_commit_result:
  "after_commit env req td u w =
     ((case externalHooks_run env ''user.deleted'' (toPublic u) of
         None \<Rightarrow> Inr \<lparr>success = True\<rparr>
       | Some e \<Rightarrow> Inl e),
      w\<lparr>trace := trace w @ [OnUserDeletion (dr_user req) td False,
                             ExternalHooksRun ''user.deleted'' (toPublic u)]\<rparr>)"
  by (simp add: after_commit_def call_onUserDeletion_def call_externalHooks_run_def emit_def
      split: option.splits)

lemma deleteUser_shape:
  fixes env req w
  defines "r \<equiv> deleteUser env req w"
  shows "(\<exists>e evs. fst r = Inl e \<and> db (snd r) = db w \<and> trace (snd r) = trace w @ evs \<and>
            TransactionCommit \<notin> set evs \<and> \<not> list_ex is_telemetry evs \<and>
            (user_id (dr_user req) \<noteq> dr_id req \<and> dr_transferId req \<noteq> Some (dr_id req) \<longrightarrow>
               (\<exists>rest. evs = UserFindMany [dr_transferId req, Some (dr_id req)] # rest \<and>
                  \<not> list_ex is_user_lookup rest)))
       \<or> (\<exists>u mid. find (\<lambda>x. user_id x = dr_id req) (users (db w)) = Some u \<and>
            list_all is_inner mid \<and>
            trace (snd r) =
              trace w @ UserFindMany [dr_transferId req, Some (dr_id req)] # mid @
                [TransactionCommit, OnUserDeletion (dr_user req) (telemetry_of req u) False,
                 ExternalHooksRun ''user.deleted'' (toPublic u)] \<and>
            fst r = (case externalHooks_run env ''user.deleted'' (toPublic u) of
                       None \<Rightarrow> Inr \<lparr>success = True\<rparr>
                     | Some e \<Rightarrow> Inl e) \<and>
            users (db (snd r)) = filter (\<lambda>x. user_id x \<noteq> dr_id req) (users (db w)))"
    (is "?failed \<or> ?done")
proof -
  obtain found w1 where
    fm: "userService_findMany [dr_transferId req, Some (dr_id req)] w = (found, w1)"
    by fastforce
  then have found_def:
      "found = filter (\<lambda>u. Some (user_id u) \<in> set [dr_transferId req, Some (dr_id req)]) (users (db w))"
    and w1_def: "w1 = emit (UserFindMany [dr_transferId req, Some (dr_id req)]) w"
    by (auto simp add: userService_findMany_def)
  have found_target:
    "find (\<lambda>u. user_id u = dr_id req) found = find (\<lambda>u. user_id u = dr_id req) (users (db w))"
    unfolding found_def by (rule find_in_filter) simp
  consider
      (self) "user_id (dr_user req) = dr_id req"
    | (same) "user_id (dr_user req) \<noteq> dr_id req" "dr_transferId req = Some (dr_id req)"
    | (missing) "user_id (dr_user req) \<noteq> dr_id req" "dr_transferId req \<noteq> Some (dr_id req)"
        "found = [] \<or> truthy (dr_transferId req) \<and> length found \<noteq> 2"
    | (undefined) "user_id (dr_user req) \<noteq> dr_id req" "dr_transferId req \<noteq> Some (dr_id req)"
        "\<not> (found = [] \<or> truthy (dr_transferId req) \<and> length found \<noteq> 2)"
        "find (\<lambda>u. user_id u = dr_id req) found = None"
    | (run) u where "user_id (dr_user req) \<noteq> dr_id req" "dr_transferId req \<noteq> Some (dr_id req)"
        "\<not> (found = [] \<or> truthy (dr_transferId req) \<and> length found \<noteq> 2)"
        "find (\<lambda>u. user_id u = dr_id req) found = Some u"
    by (cases "find (\<lambda>u. user_id u = dr_id req) found") auto
  then show ?thesis
  proof cases
    case self
    then have "r = (Inl (BadRequestError DELETE_OWN_USER), logger_debug DELETE_OWN_USER_LOG w)"
      by (simp add: r_def deleteUser_def)
    with self have ?failed
      by (simp add: logger_debug_def emit_simps)
    then show ?thesis ..
  next
    case same
    then have "r = (Inl (BadRequestError DELETE_SAME_TRANSFEREE), w)"
      by (simp add: r_def deleteUser_def)
    with same have ?failed by simp
    then show ?thesis ..
  next
    case missing
    then have "r = (Inl (NotFoundError DELETE_NOT_FOUND), w1)"
      using fm by (simp add: r_def deleteUser_def Let_def)
    then have ?failed
      by (simp add: w1_def emit_simps)
    then show ?thesis ..
  next
    case undefined
    then have "r = (Inl TypeError, w1)"
      using fm by (simp add: r_def deleteUser_def Let_def)
    then have ?failed
      by (simp add: w1_def emit_simps)
    then show ?thesis ..
  next
    case run
    have u: "find (\<lambda>x. user_id x = dr_id req) (users (db w)) = Some u"
      using run(4) found_target by simp
    then have uid: "user_id u = dr_id req"
      by (rule find_user_id)
    define pre where
      "pre = (if truthy (dr_transferId req) then []
              else [SharedWorkflowFind (user_id u) (role_id (findWorkflowOwnerRole env)),
                    SharedCredentialsFind (user_id u) (role_id (findCredentialOwnerRole env))])"
    define w3 where "w3 = w1\<lparr>trace := trace w1 @ pre\<rparr>"
    define body where
      "body = (if truthy (dr_transferId req) then
                 transfer_transaction (findWorkflowOwnerRole env) (findCredentialOwnerRole env) u
                   (find (\<lambda>x. Some (user_id x) = dr_transferId req) found)
               else
                 cascade_transaction env u
                   (map (\<lambda>l. (l, workflow_of (db w1) l))
                      (filter (\<lambda>l. sw_userId l = user_id u \<and>
                                    sw_roleId l = role_id (findWorkflowOwnerRole env))
                         (sharedWorkflows (db w1))))
                   (map (\<lambda>l. (l, credentials_of (db w1) l))
                      (filter (\<lambda>l. sc_userId l = user_id u \<and>
                                    sc_roleId l = role_id (findCredentialOwnerRole env))
                         (sharedCredentials (db w1)))))"
    have r: "r = (case transaction body w3 of
                    (Some e, w') \<Rightarrow> (Inl e, w')
                  | (None, w') \<Rightarrow> after_commit env req (telemetry_of req u) u w')"
      using run fm
      by (simp add: r_def deleteUser_def body_def w3_def pre_def find_SharedWorkflow_def
          find_SharedCredentials_def emit_def Let_def)
    have body_trace: "\<exists>evs. trace (snd (body v)) = trace v @ evs \<and> list_all is_inner evs" for v
      unfolding body_def using transfer_transaction_trace cascade_transaction_trace by simp
    have body_users: "fst (body v) = None \<Longrightarrow>
        users (db (snd (body v))) = filter (\<lambda>x. user_id x \<noteq> user_id u) (users (db v))" for v
      unfolding body_def
      by (cases "truthy (dr_transferId req)")
         (simp_all add: transfer_transaction_users cascade_transaction_users)
    obtain mid where mid: "list_all is_inner mid"
      "case fst (transaction body w3) of
         None \<Rightarrow> trace (snd (transaction body w3)) = trace w3 @ mid @ [TransactionCommit] \<and>
                 db (snd (transaction body w3)) = db (snd (body (emit TransactionBegin w3))) \<and>
                 fst (body (emit TransactionBegin w3)) = None
       | Some e \<Rightarrow> trace (snd (transaction body w3)) = trace w3 @ mid @ [TransactionRollback] \<and>
                 db (snd (transaction body w3)) = db w3"
      using transaction_shape [of body w3, OF body_trace] by blast
    have pre: "list_all is_inner pre"
      by (simp add: pre_def)
    have w3: "db w3 = db w" "trace w3 = trace w @ UserFindMany [dr_transferId req, Some (dr_id req)] # pre"
      by (simp_all add: w3_def w1_def emit_simps)
    show ?thesis
    proof (cases "fst (transaction body w3)")
      case None
      then have res: "r = after_commit env req (telemetry_of req u) u (snd (transaction body w3))"
        by (cases "transaction body w3") (simp add: r)
      from None mid(2) have
        t: "trace (snd (transaction body w3)) = trace w3 @ mid @ [TransactionCommit]" and
        d: "db (snd (transaction body w3)) = db (snd (body (emit TransactionBegin w3)))" and
        ok: "fst (body (emit TransactionBegin w3)) = None"
        by simp_all
      have "users (db (snd r)) = filter (\<lambda>x. user_id x \<noteq> dr_id req) (users (db w))"
        using body_users [OF ok] by (simp add: res after_commit_result d emit_simps w3 uid)
      moreover have "trace (snd r) =
          trace w @ UserFindMany [dr_transferId req, Some (dr_id req)] # (pre @ mid) @
            [TransactionCommit, OnUserDeletion (dr_user req) (telemetry_of req u) False,
             ExternalHooksRun ''user.deleted'' (toPublic u)]"
        by (simp add: res after_commit_result t w3)
      moreover have "fst r = (case externalHooks_run env ''user.deleted'' (toPublic u) of
                       None \<Rightarrow> Inr \<lparr>success = True\<rparr>
                     | Some e \<Rightarrow> Inl e)"
        by (simp add: res after_commit_result)
      moreover have "list_all is_inner (pre @ mid)"
        using pre mid(1) by simp
      ultimately have ?done
        using u by blast
      then show ?thesis ..
    next
      case (Some e)
      then have res: "r = (Inl e, snd (transaction body w3))"
        by (cases "transaction body w3") (simp add: r)
      from Some mid(2) have
        t: "trace (snd (transaction body w3)) = trace w3 @ mid @ [TransactionRollback]" and
        d: "db (snd (transaction body w3)) = db w3"
        by simp_all
      have "list_all is_inner (pre @ mid)"
        using pre mid(1) by simp
      from inner_not_outer [OF this] have ?failed
        apply (intro exI [of _ e] exI [of _ "UserFindMany [dr_transferId req, Some (dr_id req)] # (pre @ mid) @ [TransactionRollback]"])
        apply (simp add: res t d w3)
        done
      then show ?thesis ..
    qed
  qed
qed

section \<open>Facts for the claims\<close>

lemma new_events_append: "trace w' = trace w @ evs \<Longrightarrow> new_events w w' = evs"
  by (simp add: new_events_def)

lemma inner_filter_telemetry: "list_all is_inner es \<Longrightarrow> filter is_telemetry es = []"
  by (induction es) (auto elim: is_inner.elims)

lemma start_deactivations_runner:
  assumes "activeWorkflowRunner_remove env' = activeWorkflowRunner_remove env"
  shows "start_deactivations env' ws w = start_deactivations env ws w"
proof (induction ws arbitrary: w)
  case Nil
  show ?case by simp
next
  case (Cons a ws)
  show ?case
  proof (cases a)
    case None
    then show ?thesis by (simp add: Cons.IH)
  next
    case (Some x)
    then show ?thesis by (simp add: Cons.IH assms)
  qed
qed

lemma cascade_transaction_runner:
  "activeWorkflowRunner_remove env' = activeWorkflowRunner_remove env \<Longrightarrow>
     cascade_transaction env' u osw osc = cascade_transaction env u osw osc"
  by (rule ext) (simp add: cascade_transaction_def start_deactivations_runner [of env' env])

lemma deleteUser_ignores_telemetry_outcome:
  "deleteUser (env\<lparr>internalHooks_onUserDeletion := f\<rparr>) req w = deleteUser env req w"
proof -
  have c: "cascade_transaction (env\<lparr>internalHooks_onUserDeletion := f\<rparr>) = cascade_transaction env"
    by (intro ext cascade_transaction_runner [THEN fun_cong]) simp
  have a: "after_commit (env\<lparr>internalHooks_onUserDeletion := f\<rparr>) = after_commit env"
    by (intro ext) (simp add: after_commit_result)
  have r: "findWorkflowOwnerRole (env\<lparr>internalHooks_onUserDeletion := f\<rparr>) = findWorkflowOwnerRole env"
    "findCredentialOwnerRole (env\<lparr>internalHooks_onUserDeletion := f\<rparr>) = findCredentialOwnerRole env"
    by simp_all
  show ?thesis
    unfolding deleteUser_def c a r ..
qed

lemma length_filter_conj_le: "length (filter (\<lambda>x. Q x \<and> P x) xs) \<le> length (filter P xs)"
  by (induction xs) auto

lemma deleteUser_owners:
  "length (global_owners (db (snd (deleteUser env req w)))) \<le> length (global_owners (db w))"
proof -
  from deleteUser_shape [of env req w]
  have "db (snd (deleteUser env req w)) = db w \<or>
        users (db (snd (deleteUser env req w))) =
          filter (\<lambda>x. user_id x \<noteq> dr_id req) (users (db w))"
    by blast
  then show ?thesis
    by (auto simp add: global_owners_def length_filter_conj_le)
qed

lemma owners_with_role:
  "\<not> (scope r = ''global'' \<and> name r = ''owner'') \<Longrightarrow>
     length (filter is_global_owner (with_role uid r us)) \<le> length (filter is_global_owner us)"
  by (induction us) (auto simp add: with_role_def is_global_owner_def)

lemma changeRole_cases:
  "snd (changeRole env req w) = w \<or>
   snd (changeRole env req w) = emit (UserFindOne (cr_id req)) w \<or>
   (case cr_newRole req of
      None \<Rightarrow> False
    | Some r \<Rightarrow>
        (case (nr_scope r, nr_name r) of
           (Some s, Some n) \<Rightarrow>
             \<not> (s = ''global'' \<and> n = ''owner'') \<and>
             fst (changeRole env req w) = Inr \<lparr>success = True\<rparr> \<and>
             snd (changeRole env req w) =
               userService_update (cr_id req) (findCached env s n)
                 (emit (UserFindOne (cr_id req)) w)
         | _ \<Rightarrow> False))"
proof (cases "find (\<lambda>u. user_id u = cr_id req) (users (db w))")
  case None
  then show ?thesis
    by (simp add: changeRole_def userService_findOne_def Let_def split: option.splits)
next
  case (Some t)
  then have "user_id t = cr_id req"
    by (rule find_user_id)
  with Some show ?thesis
    by (simp add: changeRole_def userService_findOne_def Let_def split: option.splits)
qed

lemma changeRole_owners:
  assumes "role_directory_ok env"
  shows "length (global_owners (db (snd (changeRole env req w)))) \<le> length (global_owners (db w))"
proof -
  have "length (filter is_global_owner (with_role uid (findCached env s n) us))
          \<le> length (filter is_global_owner us)"
    if "\<not> (s = ''global'' \<and> n = ''owner'')" for s n uid us
    using assms that by (intro owners_with_role) (simp add: role_directory_ok_def)
  then show ?thesis
    using changeRole_cases [of env req w]
    by (auto simp add: global_owners_def userService_update_def emit_simps with_role_def
        split: option.splits)
qed

lemma changeRole_to_owner:
  "cr_newRole req = Some r \<Longrightarrow> nr_scope r = Some ''global'' \<Longrightarrow> nr_name r = Some ''owner'' \<Longrightarrow>
     (\<exists>m. fst (changeRole env req w) = Inl (UnauthorizedError m)) \<and> snd (changeRole env req w) = w"
  by (simp add: changeRole_def)

lemma count_two_keys:
  assumes "distinct (map f xs)" "a \<noteq> b"
  shows "length (filter (\<lambda>x. f x = a \<or> f x = b) xs) =
           (if a \<in> f ` set xs then 1 else 0) + (if b \<in> f ` set xs then (1::nat) else 0)"
  using assms by (induction xs) auto

lemma lookup_length:
  assumes "distinct (map user_id us)" "tid \<noteq> Some i"
  shows "length (filter (\<lambda>u. Some (user_id u) \<in> set [tid, Some i]) us) =
           (if \<exists>t. tid = Some t \<and> t \<in> set (map user_id us) then 1 else 0) +
           (if i \<in> set (map user_id us) then 1 else 0)"
proof -
  have "distinct (map (\<lambda>u. Some (user_id u)) us)"
    using assms(1) by (simp add: distinct_map inj_on_def)
  from count_two_keys [OF this assms(2)] show ?thesis
    by (auto simp add: image_iff)
qed



section \<open>Guards of deleteUser\<close>

text \<open>
  C5. A request to delete the acting user itself fails with the self-deletion error
  (\<open>BadRequestError\<close>, "Cannot delete your own user"). The tables are unchanged and the
  only call made is the logger's: the check precedes every lookup and every write.
\<close>

theorem deleteUser_self_deletion_forbidden:
  "dr_id req = user_id (dr_user req) \<Longrightarrow>
     fst (deleteUser env req w) = Inl (BadRequestError DELETE_OWN_USER) \<and>
     db (snd (deleteUser env req w)) = db w \<and>
     new_events w (snd (deleteUser env req w)) = [LoggerDebug DELETE_OWN_USER_LOG]"
  by (simp add: deleteUser_def logger_debug_def emit_simps new_events_def)

theorem deleteUser_self_deletion_forbidden_witness:
  "dr_id self_request = user_id (dr_user self_request) \<and>
   fst (deleteUser sample_env self_request sample_world) = Inl (BadRequestError DELETE_OWN_USER) \<and>
   db (snd (deleteUser sample_env self_request sample_world)) = db sample_world \<and>
   new_events sample_world (snd (deleteUser sample_env self_request sample_world)) =
     [LoggerDebug DELETE_OWN_USER_LOG]"
proof -
  have h: "dr_id self_request = user_id (dr_user self_request)"
    by (simp add: self_request_def ada_def)
  from deleteUser_self_deletion_forbidden [OF h, of sample_env sample_world] h
  show ?thesis by simp
qed

text \<open>
  C6, as stated: every request whose transferee is the target fails with the
  invalid-transferee error. It does not when the target is also the acting user: the
  self-deletion check comes first, and its error is the one reported.
\<close>

theorem deleteUser_invalid_transferee_counterexample:
  "dr_transferId self_request = Some (dr_id self_request) \<and>
   fst (deleteUser sample_env self_request sample_world) = Inl (BadRequestError DELETE_OWN_USER) \<and>
   fst (deleteUser sample_env self_request sample_world) \<noteq>
     Inl (BadRequestError DELETE_SAME_TRANSFEREE)"
  by code_simp

text \<open>
  C6, amended. A request whose transferee is the target, and whose target is not the
  acting user, fails with the invalid-transferee error (\<open>BadRequestError\<close>, "... the user
  to delete and the transferee are the same user"); nothing is looked up or written:
  the world is the one the call started in.
\<close>

theorem deleteUser_invalid_transferee:
  "dr_transferId req = Some (dr_id req) \<Longrightarrow> dr_id req \<noteq> user_id (dr_user req) \<Longrightarrow>
     deleteUser env req w = (Inl (BadRequestError DELETE_SAME_TRANSFEREE), w)"
  by (simp add: deleteUser_def)

theorem deleteUser_invalid_transferee_witness:
  "dr_transferId same_transferee_request = Some (dr_id same_transferee_request) \<and>
   dr_id same_transferee_request \<noteq> user_id (dr_user same_transferee_request) \<and>
   deleteUser sample_env same_transferee_request sample_world =
     (Inl (BadRequestError DELETE_SAME_TRANSFEREE), sample_world)"
proof -
  have h1: "dr_transferId same_transferee_request = Some (dr_id same_transferee_request)"
    by (simp add: same_transferee_request_def)
  have h2: "dr_id same_transferee_request \<noteq> user_id (dr_user same_transferee_request)"
    by (simp add: same_transferee_request_def ada_def)
  from deleteUser_invalid_transferee [OF h1 h2, of sample_env sample_world] h1 h2
  show ?thesis by simp
qed

text \<open>
  C7, as stated: the call fails with the not-found error whenever the target does not
  resolve. It does not when the transferee named is the target itself: that check
  comes before the lookup, so a target that is no user at all is answered with the
  invalid-transferee error, and no lookup is made.
\<close>

theorem deleteUser_batched_lookup_counterexample:
  "user_ids_ok (db sample_world) \<and>
   dr_id missing_same_request \<notin> set (map user_id (users (db sample_world))) \<and>
   fst (deleteUser sample_env missing_same_request sample_world) =
     Inl (BadRequestError DELETE_SAME_TRANSFEREE) \<and>
   fst (deleteUser sample_env missing_same_request sample_world) \<noteq>
     Inl (NotFoundError DELETE_NOT_FOUND) \<and>
   new_events sample_world (snd (deleteUser sample_env missing_same_request sample_world)) = []"
  by code_simp



section \<open>After the commit\<close>

text \<open>
  C4, as stated: once the transaction has committed, a failing side effect never makes
  the call fail. It does when the external "user.deleted" hook rejects: the handler
  awaits the hook, so the rejection is the outcome of the call, although the deletion
  stays committed.
\<close>

theorem deleteUser_hook_failure_counterexample:
  "committed sample_world (snd (deleteUser failing_hooks_env cascade_request sample_world)) \<and>
   externalHooks_run failing_hooks_env ''user.deleted'' (toPublic bob) =
     Some (CollaboratorError ''hook'') \<and>
   fst (deleteUser failing_hooks_env cascade_request sample_world) =
     Inl (CollaboratorError ''hook'') \<and>
   fst (deleteUser failing_hooks_env cascade_request sample_world) \<noteq> Inr \<lparr>success = True\<rparr>"
  by code_simp

text \<open>
  C4, amended. Whether the telemetry call resolves or rejects makes no difference to
  the call: its result and its effects are the same. Once the transaction has
  committed, the target's row is gone whatever the side effects do, and the call
  returns success exactly when the external "user.deleted" hook resolves; when the hook
  rejects, the call fails with the hook's error.
\<close>

theorem deleteUser_side_effect_failures:
  "deleteUser (env\<lparr>internalHooks_onUserDeletion := f\<rparr>) req w = deleteUser env req w \<and>
   (committed w (snd (deleteUser env req w)) \<longrightarrow>
      dr_id req \<notin> set (map user_id (users (db (snd (deleteUser env req w))))) \<and>
      (\<exists>u. find (\<lambda>x. user_id x = dr_id req) (users (db w)) = Some u \<and>
           fst (deleteUser env req w) =
             (case externalHooks_run env ''user.deleted'' (toPublic u) of
                None \<Rightarrow> Inr \<lparr>success = True\<rparr>
              | Some e \<Rightarrow> Inl e)))"
proof (intro conjI impI)
  show "deleteUser (env\<lparr>internalHooks_onUserDeletion := f\<rparr>) req w = deleteUser env req w"
    by (rule deleteUser_ignores_telemetry_outcome)
next
  assume c: "committed w (snd (deleteUser env req w))"
  from deleteUser_shape [of env req w]
  have "\<exists>u. find (\<lambda>x. user_id x = dr_id req) (users (db w)) = Some u \<and>
          fst (deleteUser env req w) =
            (case externalHooks_run env ''user.deleted'' (toPublic u) of
               None \<Rightarrow> Inr \<lparr>success = True\<rparr>
             | Some e \<Rightarrow> Inl e) \<and>
          users (db (snd (deleteUser env req w))) =
            filter (\<lambda>x. user_id x \<noteq> dr_id req) (users (db w))"
  proof (elim disjE exE conjE)
    fix e evs
    assume "trace (snd (deleteUser env req w)) = trace w @ evs" "TransactionCommit \<notin> set evs"
    with c show ?thesis
      by (simp add: committed_def new_events_append)
  next
    fix u mid
    assume "find (\<lambda>x. user_id x = dr_id req) (users (db w)) = Some u"
      "fst (deleteUser env req w) =
         (case externalHooks_run env ''user.deleted'' (toPublic u) of
            None \<Rightarrow> Inr \<lparr>success = True\<rparr>
          | Some e \<Rightarrow> Inl e)"
      "users (db (snd (deleteUser env req w))) =
         filter (\<lambda>x. user_id x \<noteq> dr_id req) (users (db w))"
    then show ?thesis
      by blast
  qed
  then show "dr_id req \<notin> set (map user_id (users (db (snd (deleteUser env req w)))))"
    and "\<exists>u. find (\<lambda>x. user_id x = dr_id req) (users (db w)) = Some u \<and>
           fst (deleteUser env req w) =
             (case externalHooks_run env ''user.deleted'' (toPublic u) of
                None \<Rightarrow> Inr \<lparr>success = True\<rparr>
              | Some e \<Rightarrow> Inl e)"
    by auto
qed

theorem deleteUser_side_effect_failures_witness:
  "committed sample_world (snd (deleteUser failing_telemetry_env cascade_request sample_world)) \<and>
   deleteUser failing_telemetry_env cascade_request sample_world =
     deleteUser sample_env cascade_request sample_world \<and>
   dr_id cascade_request \<notin>
     set (map user_id (users (db (snd (deleteUser failing_telemetry_env cascade_request sample_world))))) \<and>
   fst (deleteUser failing_telemetry_env cascade_request sample_world) = Inr \<lparr>success = True\<rparr>"
proof -
  have h: "committed sample_world (snd (deleteUser failing_telemetry_env cascade_request sample_world))"
    by code_simp
  have e: "failing_telemetry_env =
      sample_env\<lparr>internalHooks_onUserDeletion := (\<lambda>t. Some (CollaboratorError ''telemetry''))\<rparr>"
    by (simp add: failing_telemetry_env_def)
  have u: "find (\<lambda>x. user_id x = dr_id cascade_request) (users (db sample_world)) = Some bob"
    by code_simp
  have k: "externalHooks_run failing_telemetry_env ''user.deleted'' (toPublic bob) = None"
    by code_simp
  from deleteUser_side_effect_failures
         [where env = sample_env and f = "\<lambda>t. Some (CollaboratorError ''telemetry'')" and
            req = cascade_request and w = sample_world]
  have 1: "deleteUser failing_telemetry_env cascade_request sample_world =
           deleteUser sample_env cascade_request sample_world"
    by (simp add: e)
  from deleteUser_side_effect_failures
         [where env = failing_telemetry_env and req = cascade_request and w = sample_world] h
  have 2: "dr_id cascade_request \<notin>
             set (map user_id (users (db (snd (deleteUser failing_telemetry_env cascade_request sample_world)))))"
    and 3: "\<exists>u. find (\<lambda>x. user_id x = dr_id cascade_request) (users (db sample_world)) = Some u \<and>
           fst (deleteUser failing_telemetry_env cascade_request sample_world) =
             (case externalHooks_run failing_telemetry_env ''user.deleted'' (toPublic u) of
                None \<Rightarrow> Inr \<lparr>success = True\<rparr>
              | Some e \<Rightarrow> Inl e)"
    by blast+
  from 3 u k have "fst (deleteUser failing_telemetry_env cascade_request sample_world) =
      Inr \<lparr>success = True\<rparr>"
    by auto
  with h 1 2 show ?thesis
    by blast
qed

text \<open>
  C9. A call that returns success has emitted exactly one telemetry event. It records
  the acting user's id, the target's id, the target's prior status (\<open>invited\<close> when the
  target's \<open>isPending\<close> is set, \<open>active\<close> otherwise), the strategy (\<open>transfer_data\<close> when a
  transferee was given, \<open>delete_data\<close> otherwise) and the transferee's id exactly when a
  transferee was given. A transferee is given when \<open>transferId\<close> is a non-empty string.
\<close>

theorem deleteUser_telemetry_event:
  "fst (deleteUser env req w) = Inr res \<Longrightarrow>
     (\<exists>u. find (\<lambda>x. user_id x = dr_id req) (users (db w)) = Some u \<and>
        filter is_telemetry (new_events w (snd (deleteUser env req w))) =
          [OnUserDeletion (dr_user req)
             \<lparr>td_user_id = user_id (dr_user req),
              target_user_old_status = (if isPending u then ''invited'' else ''active''),
              target_user_id = dr_id req,
              migration_strategy =
                Some (if truthy (dr_transferId req) then ''transfer_data'' else ''delete_data''),
              migration_user_id =
                (if truthy (dr_transferId req) then dr_transferId req else None)\<rparr>
             False])"
proof -
  assume ok: "fst (deleteUser env req w) = Inr res"
  from deleteUser_shape [of env req w] ok
  obtain u mid where u: "find (\<lambda>x. user_id x = dr_id req) (users (db w)) = Some u"
    and mid: "list_all is_inner mid"
    and t: "trace (snd (deleteUser env req w)) =
          trace w @ UserFindMany [dr_transferId req, Some (dr_id req)] # mid @
            [TransactionCommit, OnUserDeletion (dr_user req) (telemetry_of req u) False,
             ExternalHooksRun ''user.deleted'' (toPublic u)]"
    by auto
  have "filter is_telemetry (new_events w (snd (deleteUser env req w))) =
          [OnUserDeletion (dr_user req) (telemetry_of req u) False]"
    by (simp add: new_events_append [OF t] inner_filter_telemetry [OF mid])
  with u show ?thesis
    by (auto simp add: telemetry_of_def Let_def)
qed

theorem deleteUser_telemetry_event_witness:
  "fst (deleteUser sample_env transfer_request sample_world) = Inr \<lparr>success = True\<rparr> \<and>
   find (\<lambda>x. user_id x = dr_id transfer_request) (users (db sample_world)) = Some bob \<and>
   filter is_telemetry
     (new_events sample_world (snd (deleteUser sample_env transfer_request sample_world))) =
     [OnUserDeletion ada
        \<lparr>td_user_id = ''ada'', target_user_old_status = ''invited'', target_user_id = ''bob'',
         migration_strategy = Some ''transfer_data'', migration_user_id = Some ''cy''\<rparr>
        False]"
proof -
  have h: "fst (deleteUser sample_env transfer_request sample_world) = Inr \<lparr>success = True\<rparr>"
    by code_simp
  have u: "find (\<lambda>x. user_id x = dr_id transfer_request) (users (db sample_world)) = Some bob"
    by code_simp
  from deleteUser_telemetry_event [OF h] u
  have "filter is_telemetry
     (new_events sample_world (snd (deleteUser sample_env transfer_request sample_world))) =
     [OnUserDeletion (dr_user transfer_request)
             \<lparr>td_user_id = user_id (dr_user transfer_request),
              target_user_old_status = (if isPending bob then ''invited'' else ''active''),
              target_user_id = dr_id transfer_request,
              migration_strategy =
                Some (if truthy (dr_transferId transfer_request) then ''transfer_data'' else ''delete_data''),
              migration_user_id =
                (if truthy (dr_transferId transfer_request) then dr_transferId transfer_request else None)\<rparr>
             False]"
    by simp
  then have "filter is_telemetry
     (new_events sample_world (snd (deleteUser sample_env transfer_request sample_world))) =
     [OnUserDeletion ada
        \<lparr>td_user_id = ''ada'', target_user_old_status = ''invited'', target_user_id = ''bob'',
         migration_strategy = Some ''transfer_data'', migration_user_id = Some ''cy''\<rparr>
        False]"
    by (simp add: transfer_request_def ada_def bob_def truthy_def)
  with h u show ?thesis
    by blast
qed

section \<open>changeRole\<close>

text \<open>
  C2. \<open>changeRole\<close> is the specification's table of seven guards, read in order: when
  some guard matches, the call fails with the error of the first one that does and
  leaves the tables as they were; when none matches, it looks the role up for the
  requested scope and name, sets it on the target and returns success, having made
  exactly the lookup of the target and the one update.
\<close>

theorem changeRole_follows_guard_table:
  "length (guard_table req target) = 7 \<and>
   (case first_failing (guard_table req (find (\<lambda>u. user_id u = cr_id req) (users (db w)))) of
      Some e \<Rightarrow> fst (changeRole env req w) = Inl e \<and> db (snd (changeRole env req w)) = db w
    | None \<Rightarrow>
        (\<exists>r s n. cr_newRole req = Some r \<and> nr_scope r = Some s \<and> nr_name r = Some n \<and>
           fst (changeRole env req w) = Inr \<lparr>success = True\<rparr> \<and>
           db (snd (changeRole env req w)) =
             (db w)\<lparr>users := with_role (cr_id req) (findCached env s n) (users (db w))\<rparr> \<and>
           new_events w (snd (changeRole env req w)) =
             [UserFindOne (cr_id req), UserUpdate (cr_id req) (findCached env s n)]))"
proof (cases "find (\<lambda>u. user_id u = cr_id req) (users (db w))")
  case None
  then show ?thesis
    by (simp add: changeRole_def first_failing_def guard_table_def has_global_role_def
        target_is_owner_def truthy_def userService_findOne_def emit_simps Let_def
        split: option.splits)
next
  case (Some t)
  then have "user_id t = cr_id req"
    by (rule find_user_id)
  with Some show ?thesis
    by (simp add: changeRole_def first_failing_def guard_table_def has_global_role_def
        target_is_owner_def truthy_def userService_findOne_def userService_update_def
        with_role_def emit_simps new_events_def Let_def split: option.splits)
qed

theorem changeRole_follows_guard_table_witness:
  "first_failing (guard_table demote_owner_request
      (find (\<lambda>u. user_id u = cr_id demote_owner_request) (users (db sample_world)))) =
     Some (UnauthorizedError NO_ADMIN_ON_OWNER) \<and>
   fst (changeRole sample_env demote_owner_request sample_world) =
     Inl (UnauthorizedError NO_ADMIN_ON_OWNER) \<and>
   db (snd (changeRole sample_env demote_owner_request sample_world)) = db sample_world \<and>
   first_failing (guard_table promote_request
      (find (\<lambda>u. user_id u = cr_id promote_request) (users (db sample_world)))) = None \<and>
   fst (changeRole sample_env promote_request sample_world) = Inr \<lparr>success = True\<rparr> \<and>
   db (snd (changeRole sample_env promote_request sample_world)) =
     (db sample_world)\<lparr>users :=
        with_role ''bob'' (findCached sample_env ''global'' ''admin'') (users (db sample_world))\<rparr> \<and>
   new_events sample_world (snd (changeRole sample_env promote_request sample_world)) =
     [UserFindOne ''bob'', UserUpdate ''bob'' (findCached sample_env ''global'' ''admin'')]"
proof -
  have h: "first_failing (guard_table demote_owner_request
      (find (\<lambda>u. user_id u = cr_id demote_owner_request) (users (db sample_world)))) =
     Some (UnauthorizedError NO_ADMIN_ON_OWNER)"
    by code_simp
  have k: "first_failing (guard_table promote_request
      (find (\<lambda>u. user_id u = cr_id promote_request) (users (db sample_world)))) = None"
    by code_simp
  from changeRole_follows_guard_table
         [where req = demote_owner_request and w = sample_world and env = sample_env] h
  have 1: "fst (changeRole sample_env demote_owner_request sample_world) =
             Inl (UnauthorizedError NO_ADMIN_ON_OWNER)"
    "db (snd (changeRole sample_env demote_owner_request sample_world)) = db sample_world"
    by simp_all
  from changeRole_follows_guard_table
         [where req = promote_request and w = sample_world and env = sample_env] k
  have 2: "fst (changeRole sample_env promote_request sample_world) = Inr \<lparr>success = True\<rparr>"
    "db (snd (changeRole sample_env promote_request sample_world)) =
       (db sample_world)\<lparr>users :=
          with_role ''bob'' (findCached sample_env ''global'' ''admin'') (users (db sample_world))\<rparr>"
    "new_events sample_world (snd (changeRole sample_env promote_request sample_world)) =
       [UserFindOne ''bob'', UserUpdate ''bob'' (findCached sample_env ''global'' ''admin'')]"
    by (auto simp add: promote_request_def)
  from h k 1 2 show ?thesis
    by blast
qed

text \<open>
  C10. A call of \<open>changeRole\<close> that fails, with whichever error, has changed no table
  and issued no statement that changes one: the update is reached only when no guard
  has matched.
\<close>

theorem changeRole_error_no_mutation:
  "fst (changeRole env req w) = Inl e \<Longrightarrow>
     db (snd (changeRole env req w)) = db w \<and>
     \<not> list_ex is_mutation (new_events w (snd (changeRole env req w)))"
  using changeRole_cases [of env req w]
  by (auto simp add: emit_simps new_events_def split: option.splits)

theorem changeRole_error_no_mutation_witness:
  "fst (changeRole sample_env demote_owner_request sample_world) =
     Inl (UnauthorizedError NO_ADMIN_ON_OWNER) \<and>
   db (snd (changeRole sample_env demote_owner_request sample_world)) = db sample_world \<and>
   \<not> list_ex is_mutation
       (new_events sample_world (snd (changeRole sample_env demote_owner_request sample_world)))"
proof -
  have h: "fst (changeRole sample_env demote_owner_request sample_world) =
     Inl (UnauthorizedError NO_ADMIN_ON_OWNER)"
    by code_simp
  from changeRole_error_no_mutation [OF h] h show ?thesis
    by blast
qed

section \<open>The single global owner\<close>

text \<open>
  C3. In a store with at most one global owner, neither \<open>deleteUser\<close> (on either path)
  nor \<open>changeRole\<close> leaves a store with more than one; for \<open>changeRole\<close> the role
  directory is assumed to answer with the role that was asked for. A request to
  \<open>changeRole\<close> whose new role is (global, owner) is rejected as unauthorized and the
  world is left exactly as it was.
\<close>

theorem single_global_owner_preserved:
  "(at_most_one_owner (db w) \<longrightarrow> at_most_one_owner (db (snd (deleteUser env dreq w)))) \<and>
   (at_most_one_owner (db w) \<and> role_directory_ok env \<longrightarrow>
      at_most_one_owner (db (snd (changeRole env creq w)))) \<and>
   ((\<exists>r. cr_newRole creq = Some r \<and> nr_scope r = Some ''global'' \<and> nr_name r = Some ''owner'') \<longrightarrow>
      (\<exists>m. fst (changeRole env creq w) = Inl (UnauthorizedError m)) \<and>
      snd (changeRole env creq w) = w)"
proof (intro conjI impI)
  assume "at_most_one_owner (db w)"
  with deleteUser_owners [of env dreq w]
  show "at_most_one_owner (db (snd (deleteUser env dreq w)))"
    by (simp add: at_most_one_owner_def)
next
  assume "at_most_one_owner (db w) \<and> role_directory_ok env"
  with changeRole_owners [of env creq w]
  show "at_most_one_owner (db (snd (changeRole env creq w)))"
    by (simp add: at_most_one_owner_def)
next
  assume "\<exists>r. cr_newRole creq = Some r \<and> nr_scope r = Some ''global'' \<and> nr_name r = Some ''owner''"
  then show "\<exists>m. fst (changeRole env creq w) = Inl (UnauthorizedError m)"
    and "snd (changeRole env creq w) = w"
    using changeRole_to_owner [of creq _ env w] by blast+
qed

theorem single_global_owner_preserved_witness:
  "at_most_one_owner (db sample_world) \<and> role_directory_ok sample_env \<and>
   at_most_one_owner (db (snd (deleteUser sample_env transfer_request sample_world))) \<and>
   at_most_one_owner (db (snd (changeRole sample_env promote_request sample_world))) \<and>
   (\<exists>m. fst (changeRole sample_env to_owner_request sample_world) = Inl (UnauthorizedError m)) \<and>
   snd (changeRole sample_env to_owner_request sample_world) = sample_world"
proof -
  have h1: "at_most_one_owner (db sample_world)"
    by code_simp
  have h2: "role_directory_ok sample_env"
    by (simp add: role_directory_ok_def sample_env_def)
  have h3: "\<exists>r. cr_newRole to_owner_request = Some r \<and> nr_scope r = Some ''global'' \<and>
              nr_name r = Some ''owner''"
    by (simp add: to_owner_request_def)
  from single_global_owner_preserved
         [where w = sample_world and env = sample_env and dreq = transfer_request and
            creq = promote_request]
    single_global_owner_preserved
         [where w = sample_world and env = sample_env and dreq = transfer_request and
            creq = to_owner_request]
    h1 h2 h3
  show ?thesis
    by blast
qed

section \<open>The transfer path\<close>

lemma repoint_workflows_distinct:
  assumes "distinct (map sw_key rows)" and "tid \<noteq> uid"
  shows "distinct (map sw_key
           (map (\<lambda>l. if sw_userId l = uid \<and> sw_roleId l = rid then l\<lparr>sw_userId := tid\<rparr> else l)
              (filter (\<lambda>r. \<not> (tid = sw_userId r \<and>
                    sw_workflowId r \<in> set (map sw_workflowId
                      (filter (\<lambda>r. sw_userId r = uid \<and> sw_roleId r = rid) rows))))
                 rows)))"
    (is "distinct (map sw_key (map ?f (filter ?keep rows)))")
proof -
  have inj: "inj_on sw_key (set rows)" and d: "distinct rows"
    using assms(1) by (auto simp add: distinct_map)
  have "inj_on (sw_key \<circ> ?f) (set (filter ?keep rows))"
  proof (rule inj_onI)
    fix a b
    assume a: "a \<in> set (filter ?keep rows)" and b: "b \<in> set (filter ?keep rows)"
      and e: "(sw_key \<circ> ?f) a = (sw_key \<circ> ?f) b"
    from a b have "a \<in> set rows" "b \<in> set rows"
      by simp_all
    with inj have k: "sw_key a = sw_key b \<Longrightarrow> a = b"
      by (auto dest: inj_onD)
    show "a = b"
    proof (rule k)
      show "sw_key a = sw_key b"
      proof (cases "sw_userId a = uid \<and> sw_roleId a = rid")
        case oa: True
        show ?thesis
        proof (cases "sw_userId b = uid \<and> sw_roleId b = rid")
          case True
          with oa e show ?thesis
            by (simp add: sw_key_def)
        next
          case False
          with oa e have "tid = sw_userId b" "sw_workflowId b = sw_workflowId a"
            by (simp_all add: sw_key_def)
          moreover have "sw_workflowId a \<in> set (map sw_workflowId
                (filter (\<lambda>r. sw_userId r = uid \<and> sw_roleId r = rid) rows))"
            using oa \<open>a \<in> set rows\<close> by force
          ultimately have "\<not> ?keep b"
            by simp
          with b show ?thesis
            by simp
        qed
      next
        case na: False
        show ?thesis
        proof (cases "sw_userId b = uid \<and> sw_roleId b = rid")
          case True
          with na e have "tid = sw_userId a" "sw_workflowId a = sw_workflowId b"
            by (auto simp add: sw_key_def split: if_splits)
          moreover have "sw_workflowId b \<in> set (map sw_workflowId
                (filter (\<lambda>r. sw_userId r = uid \<and> sw_roleId r = rid) rows))"
            using True \<open>b \<in> set rows\<close> by force
          ultimately have "\<not> ?keep a"
            by simp
          with a show ?thesis
            by simp
        next
          case False
          with na e show ?thesis
            by (auto split: if_splits)
        qed
      qed
    qed
  qed
  moreover have "distinct (filter ?keep rows)"
    using d by simp
  ultimately show ?thesis
    by (simp add: distinct_map)
qed

lemma repoint_credentials_distinct:
  assumes "distinct (map sc_key rows)" and "tid \<noteq> uid"
  shows "distinct (map sc_key
           (map (\<lambda>l. if sc_userId l = uid \<and> sc_roleId l = rid then l\<lparr>sc_userId := tid\<rparr> else l)
              (filter (\<lambda>r. \<not> (tid = sc_userId r \<and>
                    sc_credentialsId r \<in> set (map sc_credentialsId
                      (filter (\<lambda>r. sc_userId r = uid \<and> sc_roleId r = rid) rows))))
                 rows)))"
    (is "distinct (map sc_key (map ?f (filter ?keep rows)))")
proof -
  have inj: "inj_on sc_key (set rows)" and d: "distinct rows"
    using assms(1) by (auto simp add: distinct_map)
  have "inj_on (sc_key \<circ> ?f) (set (filter ?keep rows))"
  proof (rule inj_onI)
    fix a b
    assume a: "a \<in> set (filter ?keep rows)" and b: "b \<in> set (filter ?keep rows)"
      and e: "(sc_key \<circ> ?f) a = (sc_key \<circ> ?f) b"
    from a b have "a \<in> set rows" "b \<in> set rows"
      by simp_all
    with inj have k: "sc_key a = sc_key b \<Longrightarrow> a = b"
      by (auto dest: inj_onD)
    show "a = b"
    proof (rule k)
      show "sc_key a = sc_key b"
      proof (cases "sc_userId a = uid \<and> sc_roleId a = rid")
        case oa: True
        show ?thesis
        proof (cases "sc_userId b = uid \<and> sc_roleId b = rid")
          case True
          with oa e show ?thesis
            by (simp add: sc_key_def)
        next
          case False
          with oa e have "tid = sc_userId b" "sc_credentialsId b = sc_credentialsId a"
            by (simp_all add: sc_key_def)
          moreover have "sc_credentialsId a \<in> set (map sc_credentialsId
                (filter (\<lambda>r. sc_userId r = uid \<and> sc_roleId r = rid) rows))"
            using oa \<open>a \<in> set rows\<close> by force
          ultimately have "\<not> ?keep b"
            by simp
          with b show ?thesis
            by simp
        qed
      next
        case na: False
        show ?thesis
        proof (cases "sc_userId b = uid \<and> sc_roleId b = rid")
          case True
          with na e have "tid = sc_userId a" "sc_credentialsId a = sc_credentialsId b"
            by (auto simp add: sc_key_def split: if_splits)
          moreover have "sc_credentialsId b \<in> set (map sc_credentialsId
                (filter (\<lambda>r. sc_userId r = uid \<and> sc_roleId r = rid) rows))"
            using True \<open>b \<in> set rows\<close> by force
          ultimately have "\<not> ?keep a"
            by simp
          with a show ?thesis
            by simp
        next
          case False
          with na e show ?thesis
            by (auto split: if_splits)
        qed
      qed
    qed
  qed
  moreover have "distinct (filter ?keep rows)"
    using d by simp
  ultimately show ?thesis
    by (simp add: distinct_map)
qed

lemma transfer_transaction_ok:
  assumes "link_keys_ok (db w)" and "user_id t \<noteq> user_id u"
  shows "fst (transfer_transaction wr cr u (Some t) w) = None"
    and "trace (snd (transfer_transaction wr cr u (Some t) w)) =
           trace w @
             [SharedWorkflowFind (user_id u) (role_id wr),
              SharedWorkflowDelete (Some t)
                (map sw_workflowId
                   (filter (\<lambda>r. sw_userId r = user_id u \<and> sw_roleId r = role_id wr)
                      (sharedWorkflows (db w)))),
              SharedWorkflowUpdate u wr (Some t),
              SharedCredentialsFind (user_id u) (role_id cr),
              SharedCredentialsDelete (Some t)
                (map sc_credentialsId
                   (filter (\<lambda>r. sc_userId r = user_id u \<and> sc_roleId r = role_id cr)
                      (sharedCredentials (db w)))),
              SharedCredentialsUpdate u cr (Some t),
              AuthIdentityDelete (user_id u), UserDelete (user_id u)]"
    and "sharedWorkflows (db (snd (transfer_transaction wr cr u (Some t) w))) =
           filter (\<lambda>l. sw_userId l \<noteq> user_id u)
             (map (\<lambda>l. if sw_userId l = user_id u \<and> sw_roleId l = role_id wr
                        then l\<lparr>sw_userId := user_id t\<rparr> else l)
                (filter (\<lambda>r. \<not> (user_id t = sw_userId r \<and>
                      sw_workflowId r \<in> set (map sw_workflowId
                        (filter (\<lambda>r. sw_userId r = user_id u \<and> sw_roleId r = role_id wr)
                           (sharedWorkflows (db w))))))
                   (sharedWorkflows (db w))))"
    and "sharedCredentials (db (snd (transfer_transaction wr cr u (Some t) w))) =
           filter (\<lambda>l. sc_userId l \<noteq> user_id u)
             (map (\<lambda>l. if sc_userId l = user_id u \<and> sc_roleId l = role_id cr
                        then l\<lparr>sc_userId := user_id t\<rparr> else l)
                (filter (\<lambda>r. \<not> (user_id t = sc_userId r \<and>
                      sc_credentialsId r \<in> set (map sc_credentialsId
                        (filter (\<lambda>r. sc_userId r = user_id u \<and> sc_roleId r = role_id cr)
                           (sharedCredentials (db w))))))
                   (sharedCredentials (db w))))"
proof -
  from assms have dw: "distinct (map sw_key (sharedWorkflows (db w)))"
    and dc: "distinct (map sc_key (sharedCredentials (db w)))"
    by (simp_all add: link_keys_ok_def)
  note rw = repoint_workflows_distinct [OF dw assms(2), of "role_id wr"]
  note rc = repoint_credentials_distinct [OF dc assms(2), of "role_id cr"]
  show "fst (transfer_transaction wr cr u (Some t) w) = None"
    using rw rc
    by (simp add: transfer_transaction_def step_defs matches_user_def emit_simps Let_def)
  show "trace (snd (transfer_transaction wr cr u (Some t) w)) =
           trace w @
             [SharedWorkflowFind (user_id u) (role_id wr),
              SharedWorkflowDelete (Some t)
                (map sw_workflowId
                   (filter (\<lambda>r. sw_userId r = user_id u \<and> sw_roleId r = role_id wr)
                      (sharedWorkflows (db w)))),
              SharedWorkflowUpdate u wr (Some t),
              SharedCredentialsFind (user_id u) (role_id cr),
              SharedCredentialsDelete (Some t)
                (map sc_credentialsId
                   (filter (\<lambda>r. sc_userId r = user_id u \<and> sc_roleId r = role_id cr)
                      (sharedCredentials (db w)))),
              SharedCredentialsUpdate u cr (Some t),
              AuthIdentityDelete (user_id u), UserDelete (user_id u)]"
    using rw rc
    by (simp add: transfer_transaction_def step_defs matches_user_def emit_simps Let_def)
  show "sharedWorkflows (db (snd (transfer_transaction wr cr u (Some t) w))) =
           filter (\<lambda>l. sw_userId l \<noteq> user_id u)
             (map (\<lambda>l. if sw_userId l = user_id u \<and> sw_roleId l = role_id wr
                        then l\<lparr>sw_userId := user_id t\<rparr> else l)
                (filter (\<lambda>r. \<not> (user_id t = sw_userId r \<and>
                      sw_workflowId r \<in> set (map sw_workflowId
                        (filter (\<lambda>r. sw_userId r = user_id u \<and> sw_roleId r = role_id wr)
                           (sharedWorkflows (db w))))))
                   (sharedWorkflows (db w))))"
    using rw rc
    by (simp add: transfer_transaction_def step_defs matches_user_def emit_simps Let_def)
  show "sharedCredentials (db (snd (transfer_transaction wr cr u (Some t) w))) =
           filter (\<lambda>l. sc_userId l \<noteq> user_id u)
             (map (\<lambda>l. if sc_userId l = user_id u \<and> sc_roleId l = role_id cr
                        then l\<lparr>sc_userId := user_id t\<rparr> else l)
                (filter (\<lambda>r. \<not> (user_id t = sc_userId r \<and>
                      sc_credentialsId r \<in> set (map sc_credentialsId
                        (filter (\<lambda>r. sc_userId r = user_id u \<and> sc_roleId r = role_id cr)
                           (sharedCredentials (db w))))))
                   (sharedCredentials (db w))))"
    using rw rc
    by (simp add: transfer_transaction_def step_defs matches_user_def emit_simps Let_def)
qed

lemma find_present:
  "i \<in> set (map user_id us) \<Longrightarrow> \<exists>u. find (\<lambda>x. user_id x = i) us = Some u \<and> user_id u = i"
  by (induction us) auto

lemma find_Some_mem: "find P xs = Some x \<Longrightarrow> x \<in> set xs \<and> P x"
  by (induction xs) (auto split: if_splits)

lemma one_row_per_key:
  "distinct (map f xs) \<Longrightarrow> x \<in> set xs \<Longrightarrow> length (filter (\<lambda>y. f y = f x) xs) = 1"
proof (induction xs)
  case Nil
  then show ?case by simp
next
  case (Cons a xs)
  show ?case
  proof (cases "f a = f x")
    case True
    with Cons.prems have "f x \<notin> f ` set xs"
      by auto
    then have "filter (\<lambda>y. f y = f x) xs = []"
      by (auto simp add: filter_empty_conv image_iff)
    with True show ?thesis by simp
  next
    case False
    with Cons show ?thesis by auto
  qed
qed

lemma deleteUser_transfer_run:
  assumes "user_id (dr_user req) \<noteq> dr_id req"
    and "dr_transferId req = Some tid" and "tid \<noteq> []" and "tid \<noteq> dr_id req"
    and "user_ids_ok (db w)"
    and "find (\<lambda>x. user_id x = dr_id req) (users (db w)) = Some u"
    and "find (\<lambda>x. user_id x = tid) (users (db w)) = Some t"
  shows "deleteUser env req w =
           (case transaction
                   (transfer_transaction (findWorkflowOwnerRole env) (findCredentialOwnerRole env)
                      u (Some t))
                   (emit (UserFindMany [Some tid, Some (dr_id req)]) w) of
              (Some e, w') \<Rightarrow> (Inl e, w')
            | (None, w') \<Rightarrow> after_commit env req (telemetry_of req u) u w')"
proof -
  obtain found w1 where
    fm: "userService_findMany [dr_transferId req, Some (dr_id req)] w = (found, w1)"
    by fastforce
  then have found_def:
      "found = filter (\<lambda>u. Some (user_id u) \<in> set [Some tid, Some (dr_id req)]) (users (db w))"
    and w1_def: "w1 = emit (UserFindMany [Some tid, Some (dr_id req)]) w"
    using assms(2) by (auto simp add: userService_findMany_def)
  from assms(6,7) have present: "dr_id req \<in> set (map user_id (users (db w)))"
    "tid \<in> set (map user_id (users (db w)))"
    by (force simp add: image_iff dest!: find_Some_mem)+
  have "length found = 2"
    unfolding found_def using assms(4,5) present
    by (subst lookup_length) (auto simp add: user_ids_ok_def)
  moreover have "find (\<lambda>u. user_id u = dr_id req) found = Some u"
    unfolding found_def using assms(6) by (subst find_in_filter) simp_all
  moreover have "find (\<lambda>u. Some (user_id u) = Some tid) found = Some t"
    unfolding found_def using assms(7) by (subst find_in_filter) simp_all
  ultimately show ?thesis
    using assms(1-4) fm
    by (auto simp add: deleteUser_def Let_def truthy_def w1_def)
qed


lemma transfer_path_world:
  fixes env req w tid u t
  assumes "user_id (dr_user req) \<noteq> dr_id req"
    and "dr_transferId req = Some tid" and "tid \<noteq> []" and "tid \<noteq> dr_id req"
    and "user_ids_ok (db w)" and "link_keys_ok (db w)"
    and "find (\<lambda>x. user_id x = dr_id req) (users (db w)) = Some u"
    and "find (\<lambda>x. user_id x = tid) (users (db w)) = Some t"
  defines "body \<equiv> transfer_transaction (findWorkflowOwnerRole env) (findCredentialOwnerRole env)
                     u (Some t)"
    and "w1 \<equiv> emit TransactionBegin (emit (UserFindMany [Some tid, Some (dr_id req)]) w)"
  shows "fst (deleteUser env req w) =
           (case externalHooks_run env ''user.deleted'' (toPublic u) of
              None \<Rightarrow> Inr \<lparr>success = True\<rparr>
            | Some e \<Rightarrow> Inl e)"
    and "db (snd (deleteUser env req w)) = db (snd (body w1))"
    and "trace (snd (deleteUser env req w)) =
           trace (snd (body w1)) @
             [TransactionCommit, OnUserDeletion (dr_user req) (telemetry_of req u) False,
              ExternalHooksRun ''user.deleted'' (toPublic u)]"
proof -
  have ids: "user_id u = dr_id req" "user_id t = tid"
    using assms(7,8) by (auto dest: find_user_id)
  then have "user_id t \<noteq> user_id u"
    using assms(4) by simp
  from transfer_transaction_ok(1) [OF _ this, of w1] assms(6)
  have ok: "fst (body w1) = None"
    by (simp add: body_def w1_def emit_simps)
  have run: "deleteUser env req w =
      after_commit env req (telemetry_of req u) u (emit TransactionCommit (snd (body w1)))"
  proof -
    from ok obtain w2 where "body w1 = (None, w2)"
      by (cases "body w1") auto
    then show ?thesis
      by (simp add: deleteUser_transfer_run [OF assms(1-5,7,8)] transaction_def
          body_def [symmetric] w1_def [symmetric])
  qed
  show "fst (deleteUser env req w) =
           (case externalHooks_run env ''user.deleted'' (toPublic u) of
              None \<Rightarrow> Inr \<lparr>success = True\<rparr>
            | Some e \<Rightarrow> Inl e)"
    by (simp add: run after_commit_result)
  show "db (snd (deleteUser env req w)) = db (snd (body w1))"
    by (simp add: run after_commit_result emit_simps)
  show "trace (snd (deleteUser env req w)) =
           trace (snd (body w1)) @
             [TransactionCommit, OnUserDeletion (dr_user req) (telemetry_of req u) False,
              ExternalHooksRun ''user.deleted'' (toPublic u)]"
    by (simp add: run after_commit_result emit_simps)
qed

text \<open>
  C1. A transfer in which the target owns the workflows W1 and W2 through owner links
  and the transferee already holds a link on W1: the transaction commits; afterwards
  the transferee holds an owner link on W1 and on W2, the link keys are still unique
  (there is exactly one row for the transferee and W1), and the target's row is gone.
  The call has made exactly the listed calls in the listed order: inside the
  transaction, for workflows and then for credentials, the transferee's links on the
  ids the target owns are deleted before the target's owner links are re-pointed. The
  call returns success when the external hook resolves. The store is assumed to keep
  user ids and link keys unique.
\<close>

theorem transfer_reassigns_ownership:
  fixes env req w tid W1 W2 shared
  defines "w' \<equiv> snd (deleteUser env req w)"
    and "owner \<equiv> role_id (findWorkflowOwnerRole env)"
  assumes "user_id (dr_user req) \<noteq> dr_id req"
    and "dr_transferId req = Some tid" and "tid \<noteq> []" and "tid \<noteq> dr_id req"
    and "user_ids_ok (db w)" and "link_keys_ok (db w)"
    and "dr_id req \<in> set (map user_id (users (db w)))"
    and "tid \<in> set (map user_id (users (db w)))"
    and "\<lparr>sw_userId = dr_id req, sw_workflowId = W1, sw_roleId = owner\<rparr>
           \<in> set (sharedWorkflows (db w))"
    and "\<lparr>sw_userId = dr_id req, sw_workflowId = W2, sw_roleId = owner\<rparr>
           \<in> set (sharedWorkflows (db w))"
    and "\<lparr>sw_userId = tid, sw_workflowId = W1, sw_roleId = shared\<rparr>
           \<in> set (sharedWorkflows (db w))"
  shows "committed w w' \<and>
         \<lparr>sw_userId = tid, sw_workflowId = W1, sw_roleId = owner\<rparr> \<in> set (sharedWorkflows (db w')) \<and>
         \<lparr>sw_userId = tid, sw_workflowId = W2, sw_roleId = owner\<rparr> \<in> set (sharedWorkflows (db w')) \<and>
         link_keys_ok (db w') \<and>
         length (filter (\<lambda>l. sw_key l = (tid, W1)) (sharedWorkflows (db w'))) = 1 \<and>
         dr_id req \<notin> set (map user_id (users (db w'))) \<and>
         all_before is_SharedWorkflowDelete is_SharedWorkflowUpdate (new_events w w') \<and>
         all_before is_SharedCredentialsDelete is_SharedCredentialsUpdate (new_events w w') \<and>
         (\<exists>u t wids cids.
            find (\<lambda>x. user_id x = dr_id req) (users (db w)) = Some u \<and>
            find (\<lambda>x. user_id x = tid) (users (db w)) = Some t \<and>
            W1 \<in> set wids \<and> W2 \<in> set wids \<and>
            fst (deleteUser env req w) =
              (case externalHooks_run env ''user.deleted'' (toPublic u) of
                 None \<Rightarrow> Inr \<lparr>success = True\<rparr>
               | Some e \<Rightarrow> Inl e) \<and>
            new_events w w' =
              [UserFindMany [Some tid, Some (dr_id req)],
               TransactionBegin,
               SharedWorkflowFind (dr_id req) owner,
               SharedWorkflowDelete (Some t) wids,
               SharedWorkflowUpdate u (findWorkflowOwnerRole env) (Some t),
               SharedCredentialsFind (dr_id req) (role_id (findCredentialOwnerRole env)),
               SharedCredentialsDelete (Some t) cids,
               SharedCredentialsUpdate u (findCredentialOwnerRole env) (Some t),
               AuthIdentityDelete (dr_id req),
               UserDelete (dr_id req),
               TransactionCommit,
               OnUserDeletion (dr_user req) (telemetry_of req u) False,
               ExternalHooksRun ''user.deleted'' (toPublic u)])"
proof -
  from assms(9,10) obtain u t where
    u: "find (\<lambda>x. user_id x = dr_id req) (users (db w)) = Some u" "user_id u = dr_id req" and
    t: "find (\<lambda>x. user_id x = tid) (users (db w)) = Some t" "user_id t = tid"
    using find_present by blast
  define w1 where "w1 = emit TransactionBegin (emit (UserFindMany [Some tid, Some (dr_id req)]) w)"
  define body where
    "body = transfer_transaction (findWorkflowOwnerRole env) (findCredentialOwnerRole env) u (Some t)"
  define wids where
    "wids = map sw_workflowId
              (filter (\<lambda>r. sw_userId r = dr_id req \<and> sw_roleId r = owner) (sharedWorkflows (db w)))"
  define cids where
    "cids = map sc_credentialsId
              (filter (\<lambda>r. sc_userId r = dr_id req \<and>
                            sc_roleId r = role_id (findCredentialOwnerRole env))
                 (sharedCredentials (db w)))"
  define moved where
    "moved = map (\<lambda>l. if sw_userId l = dr_id req \<and> sw_roleId l = owner
                       then l\<lparr>sw_userId := user_id t\<rparr> else l)
               (filter (\<lambda>r. \<not> (user_id t = sw_userId r \<and> sw_workflowId r \<in> set wids))
                  (sharedWorkflows (db w)))"
  have w1: "db w1 = db w" "trace w1 = trace w @ [UserFindMany [Some tid, Some (dr_id req)], TransactionBegin]"
    by (simp_all add: w1_def emit_simps)
  have ne: "user_id t \<noteq> user_id u"
    using u(2) t(2) assms(6) by simp
  have keys: "link_keys_ok (db w1)"
    using assms(8) w1(1) by simp
  note world = transfer_path_world [OF assms(3-8) u(1) t(1), of env,
      folded body_def w1_def]
  note tx = transfer_transaction_ok [OF keys ne, of "findWorkflowOwnerRole env"
      "findCredentialOwnerRole env", folded body_def]
  have links: "sharedWorkflows (db w') = filter (\<lambda>l. sw_userId l \<noteq> dr_id req) moved"
    by (simp add: w'_def world(2) tx(3) w1(1) u(2) moved_def wids_def owner_def)
  have events: "new_events w w' =
      [UserFindMany [Some tid, Some (dr_id req)],
       TransactionBegin,
       SharedWorkflowFind (dr_id req) owner,
       SharedWorkflowDelete (Some t) wids,
       SharedWorkflowUpdate u (findWorkflowOwnerRole env) (Some t),
       SharedCredentialsFind (dr_id req) (role_id (findCredentialOwnerRole env)),
       SharedCredentialsDelete (Some t) cids,
       SharedCredentialsUpdate u (findCredentialOwnerRole env) (Some t),
       AuthIdentityDelete (dr_id req),
       UserDelete (dr_id req),
       TransactionCommit,
       OnUserDeletion (dr_user req) (telemetry_of req u) False,
       ExternalHooksRun ''user.deleted'' (toPublic u)]"
    by (rule new_events_append)
       (simp add: w'_def world(3) tx(2) w1 u(2) wids_def cids_def owner_def)
  have in_wids: "W1 \<in> set wids" "W2 \<in> set wids"
    using assms(11,12) by (force simp add: wids_def)+
  have moved_in: "\<lparr>sw_userId = tid, sw_workflowId = W, sw_roleId = owner\<rparr> \<in> set (sharedWorkflows (db w'))"
    if "\<lparr>sw_userId = dr_id req, sw_workflowId = W, sw_roleId = owner\<rparr> \<in> set (sharedWorkflows (db w))"
    for W
  proof -
    let ?l = "\<lparr>sw_userId = dr_id req, sw_workflowId = W, sw_roleId = owner\<rparr>"
    from that assms(6) t(2)
    have "?l \<in> set (filter (\<lambda>r. \<not> (user_id t = sw_userId r \<and> sw_workflowId r \<in> set wids))
                  (sharedWorkflows (db w)))"
      by simp
    then have "(if sw_userId ?l = dr_id req \<and> sw_roleId ?l = owner
                then ?l\<lparr>sw_userId := user_id t\<rparr> else ?l) \<in> set moved"
      unfolding moved_def set_map by (rule imageI)
    then have "\<lparr>sw_userId = tid, sw_workflowId = W, sw_roleId = owner\<rparr> \<in> set moved"
      by (simp add: t(2))
    with assms(6) show ?thesis
      by (simp add: links)
  qed
  have dw: "distinct (map sw_key (sharedWorkflows (db w')))"
  proof -
    from assms(8) have "distinct (map sw_key (sharedWorkflows (db w)))"
      by (simp add: link_keys_ok_def)
    from repoint_workflows_distinct [OF this, of "user_id t" "dr_id req" owner] ne
    have "distinct (map sw_key moved)"
      by (simp add: moved_def wids_def u(2))
    then show ?thesis
      by (simp add: links distinct_map_filter)
  qed
  have dc: "distinct (map sc_key (sharedCredentials (db w')))"
  proof -
    from assms(8) have "distinct (map sc_key (sharedCredentials (db w)))"
      by (simp add: link_keys_ok_def)
    from repoint_credentials_distinct [OF this, of "user_id t" "dr_id req"
        "role_id (findCredentialOwnerRole env)"] ne
    show ?thesis
      by (simp add: w'_def world(2) tx(4) w1(1) u(2) distinct_map_filter)
  qed
  have one: "length (filter (\<lambda>l. sw_key l = (tid, W1)) (sharedWorkflows (db w'))) = 1"
    using one_row_per_key [OF dw moved_in [OF assms(11)]]
    by (simp add: sw_key_def)
  have gone: "dr_id req \<notin> set (map user_id (users (db w')))"
  proof -
    have "fst (body w1) = None"
      by (rule tx(1))
    from transfer_transaction_users [OF this [unfolded body_def]]
    show ?thesis
      by (auto simp add: w'_def world(2) body_def u(2))
  qed
  have "committed w w'"
    by (simp add: committed_def events)
  moreover have "all_before is_SharedWorkflowDelete is_SharedWorkflowUpdate (new_events w w')"
    "all_before is_SharedCredentialsDelete is_SharedCredentialsUpdate (new_events w w')"
    by (simp_all add: events all_before_def)
  moreover have "link_keys_ok (db w')"
    using dw dc by (simp add: link_keys_ok_def)
  ultimately show ?thesis
    using moved_in [OF assms(11)] moved_in [OF assms(12)] one gone u(1) t(1) in_wids world(1) events
    by blast
qed

theorem transfer_reassigns_ownership_witness:
  "user_id (dr_user transfer_request) \<noteq> dr_id transfer_request \<and>
   dr_transferId transfer_request = Some ''cy'' \<and>
   ''cy'' \<noteq> dr_id transfer_request \<and>
   user_ids_ok (db sample_world) \<and> link_keys_ok (db sample_world) \<and>
   dr_id transfer_request \<in> set (map user_id (users (db sample_world))) \<and>
   ''cy'' \<in> set (map user_id (users (db sample_world))) \<and>
   \<lparr>sw_userId = dr_id transfer_request, sw_workflowId = ''W1'',
     sw_roleId = role_id (findWorkflowOwnerRole sample_env)\<rparr>
     \<in> set (sharedWorkflows (db sample_world)) \<and>
   \<lparr>sw_userId = dr_id transfer_request, sw_workflowId = ''W2'',
     sw_roleId = role_id (findWorkflowOwnerRole sample_env)\<rparr>
     \<in> set (sharedWorkflows (db sample_world)) \<and>
   \<lparr>sw_userId = ''cy'', sw_workflowId = ''W1'', sw_roleId = ''6''\<rparr>
     \<in> set (sharedWorkflows (db sample_world)) \<and>
   fst (deleteUser sample_env transfer_request sample_world) = Inr \<lparr>success = True\<rparr> \<and>
   committed sample_world (snd (deleteUser sample_env transfer_request sample_world)) \<and>
   \<lparr>sw_userId = ''cy'', sw_workflowId = ''W1'',
     sw_roleId = role_id (findWorkflowOwnerRole sample_env)\<rparr>
     \<in> set (sharedWorkflows (db (snd (deleteUser sample_env transfer_request sample_world)))) \<and>
   \<lparr>sw_userId = ''cy'', sw_workflowId = ''W2'',
     sw_roleId = role_id (findWorkflowOwnerRole sample_env)\<rparr>
     \<in> set (sharedWorkflows (db (snd (deleteUser sample_env transfer_request sample_world)))) \<and>
   link_keys_ok (db (snd (deleteUser sample_env transfer_request sample_world))) \<and>
   length (filter (\<lambda>l. sw_key l = (''cy'', ''W1''))
     (sharedWorkflows (db (snd (deleteUser sample_env transfer_request sample_world))))) = 1 \<and>
   dr_id transfer_request \<notin>
     set (map user_id (users (db (snd (deleteUser sample_env transfer_request sample_world))))) \<and>
   all_before is_SharedWorkflowDelete is_SharedWorkflowUpdate
     (new_events sample_world (snd (deleteUser sample_env transfer_request sample_world))) \<and>
   all_before is_SharedCredentialsDelete is_SharedCredentialsUpdate
     (new_events sample_world (snd (deleteUser sample_env transfer_request sample_world)))"
proof -
  have h1: "user_id (dr_user transfer_request) \<noteq> dr_id transfer_request"
    by code_simp
  have h2: "dr_transferId transfer_request = Some ''cy''"
    by code_simp
  have h3: "''cy'' \<noteq> []"
    by simp
  have h4: "''cy'' \<noteq> dr_id transfer_request"
    by code_simp
  have h5: "user_ids_ok (db sample_world)"
    by code_simp
  have h6: "link_keys_ok (db sample_world)"
    by code_simp
  have h7: "dr_id transfer_request \<in> set (map user_id (users (db sample_world)))"
    by code_simp
  have h8: "''cy'' \<in> set (map user_id (users (db sample_world)))"
    by code_simp
  have h9: "\<lparr>sw_userId = dr_id transfer_request, sw_workflowId = ''W1'',
              sw_roleId = role_id (findWorkflowOwnerRole sample_env)\<rparr>
              \<in> set (sharedWorkflows (db sample_world))"
    by code_simp
  have h10: "\<lparr>sw_userId = dr_id transfer_request, sw_workflowId = ''W2'',
              sw_roleId = role_id (findWorkflowOwnerRole sample_env)\<rparr>
              \<in> set (sharedWorkflows (db sample_world))"
    by code_simp
  have h11: "\<lparr>sw_userId = ''cy'', sw_workflowId = ''W1'', sw_roleId = ''6''\<rparr>
              \<in> set (sharedWorkflows (db sample_world))"
    by code_simp
  have ok: "fst (deleteUser sample_env transfer_request sample_world) = Inr \<lparr>success = True\<rparr>"
    by code_simp
  from transfer_reassigns_ownership [OF h1 h2 h3 h4 h5 h6 h7 h8 h9 h10 h11]
    h1 h2 h4 h5 h6 h7 h8 h9 h10 h11 ok
  show ?thesis
    by blast
qed

section \<open>The cascade path\<close>

lemma active_ids_simps:
  "active_ids [] = []"
  "active_ids (None # ws) = active_ids ws"
  "active_ids (Some y # ws) = (if active y then workflow_id y # active_ids ws else active_ids ws)"
  by (simp_all add: active_ids_def List.map_filter_simps)

lemma workflow_of_id: "workflow_of d l = Some y \<Longrightarrow> workflow_id y = sw_workflowId l"
  by (auto simp add: workflow_of_def dest: find_Some_mem)

lemma credentials_of_id: "credentials_of d l = Some c \<Longrightarrow> credentials_id c = sc_credentialsId l"
  by (auto simp add: credentials_of_def dest: find_Some_mem)

lemma count_active:
  assumes "find (\<lambda>y. workflow_id y = W) (workflows d) = Some x" and "active x"
    and "distinct (map sw_workflowId ls)"
  shows "length (filter (\<lambda>i. i = W) (active_ids (map (workflow_of d) ls))) =
           (if W \<in> sw_workflowId ` set ls then 1 else 0)"
  using assms(3)
proof (induction ls)
  case Nil
  show ?case by (simp add: active_ids_simps)
next
  case (Cons l ls)
  show ?case
  proof (cases "sw_workflowId l = W")
    case True
    then have "workflow_of d l = Some x"
      using assms(1) by (simp add: workflow_of_def)
    moreover have "workflow_id x = W"
      using assms(1) by (auto dest: find_Some_mem)
    moreover have "W \<notin> sw_workflowId ` set ls"
      using Cons.prems True by auto
    ultimately show ?thesis
      using Cons assms(2) True by (simp add: active_ids_simps)
  next
    case False
    then have "workflow_of d l = Some y \<Longrightarrow> workflow_id y \<noteq> W" for y
      by (auto dest: workflow_of_id)
    with False Cons show ?thesis
      by (cases "workflow_of d l") (auto simp add: active_ids_simps)
  qed
qed

lemma owned_workflow_ids_distinct:
  "distinct (map sw_key ls) \<Longrightarrow>
     distinct (map sw_workflowId (filter (\<lambda>l. sw_userId l = uid \<and> sw_roleId l = rid) ls))"
proof (induction ls)
  case Nil
  show ?case by simp
next
  case (Cons a ls)
  then show ?case
    by (auto simp add: sw_key_def image_iff)
qed

lemma occurrences_runner:
  "occurrences (ActiveWorkflowRunnerRemove W) (map ActiveWorkflowRunnerRemove ids) =
     length (filter (\<lambda>i. i = W) ids)"
  by (induction ids) (auto simp add: occurrences_def)

lemma occurrences_append: "occurrences e (xs @ ys) = occurrences e xs + occurrences e ys"
  by (simp add: occurrences_def)

lemma promise_all_resolved_aux:
  "start_deactivations env ws v = (outs, v') \<Longrightarrow> promise_all outs = Inr ows \<Longrightarrow>
     map Some ows = ws"
proof (induction ws arbitrary: v v' outs ows)
  case Nil
  then show ?case by simp
next
  case (Cons a ws)
  show ?case
  proof (cases a)
    case None
    with Cons.prems show ?thesis
      by (auto split: prod.splits)
  next
    case (Some y)
    with Cons.prems Cons.IH show ?thesis
      by (auto split: prod.splits if_splits option.splits sum.splits)
  qed
qed

lemma promise_all_resolved:
  "promise_all (fst (start_deactivations env ws v)) = Inr ows \<Longrightarrow> map Some ows = ws"
  using promise_all_resolved_aux [of env ws v "fst (start_deactivations env ws v)"
      "snd (start_deactivations env ws v)" ows]
  by simp

lemma promise_all_rejected_aux:
  "start_deactivations env ws v = (outs, v') \<Longrightarrow> Some y \<in> set ws \<Longrightarrow> active y \<Longrightarrow>
     activeWorkflowRunner_remove env (workflow_id y) = Some e \<Longrightarrow>
     \<exists>e'. promise_all outs = Inl e'"
proof (induction ws arbitrary: v v' outs)
  case Nil
  then show ?case by simp
next
  case (Cons a ws)
  show ?case
  proof (cases a)
    case None
    with Cons.prems show ?thesis
      by (auto split: prod.splits)
  next
    case (Some z)
    with Cons.prems Cons.IH show ?thesis
      by (fastforce split: prod.splits if_splits option.splits sum.splits)
  qed
qed

lemma promise_all_rejected:
  "Some y \<in> set ws \<Longrightarrow> active y \<Longrightarrow> activeWorkflowRunner_remove env (workflow_id y) = Some e \<Longrightarrow>
     \<exists>e'. promise_all (fst (start_deactivations env ws v)) = Inl e'"
  using promise_all_rejected_aux [of env ws v "fst (start_deactivations env ws v)"
      "snd (start_deactivations env ws v)" y e]
  by simp

lemma cascade_transaction_failed:
  assumes "promise_all (fst (start_deactivations env (map snd osw) v)) = Inl e"
  shows "cascade_transaction env u osw osc v =
           (Some e, v\<lparr>trace := trace v @ map ActiveWorkflowRunnerRemove (active_ids (map snd osw))\<rparr>)"
  using assms
  by (cases "start_deactivations env (map snd osw) v")
     (auto simp add: cascade_transaction_def dest!: start_deactivations_world)

lemma cascade_transaction_resolved:
  assumes "promise_all (fst (start_deactivations env (map snd osw) v)) = Inr ows"
  shows "cascade_transaction env u osw osc v =
           (if None \<in> set (map snd osc) then
              (Some TypeError,
               v\<lparr>db := (db v)\<lparr>
                    workflows := filter (\<lambda>x. workflow_id x \<notin> set (map workflow_id ows)) (workflows (db v)),
                    sharedWorkflows :=
                      filter (\<lambda>l. sw_workflowId l \<notin> set (map workflow_id ows)) (sharedWorkflows (db v))\<rparr>,
                  trace := trace v @ map ActiveWorkflowRunnerRemove (active_ids (map snd osw)) @
                    [WorkflowRemove (map workflow_id ows)]\<rparr>)
            else
              (None,
               v\<lparr>db := (db v)\<lparr>
                    users := filter (\<lambda>x. user_id x \<noteq> user_id u) (users (db v)),
                    workflows := filter (\<lambda>x. workflow_id x \<notin> set (map workflow_id ows)) (workflows (db v)),
                    credentials :=
                      filter (\<lambda>x. credentials_id x \<notin>
                                set (map credentials_id (List.map_filter (\<lambda>c. c) (map snd osc))))
                        (credentials (db v)),
                    sharedWorkflows :=
                      filter (\<lambda>l. sw_userId l \<noteq> user_id u)
                        (filter (\<lambda>l. sw_workflowId l \<notin> set (map workflow_id ows))
                           (sharedWorkflows (db v))),
                    sharedCredentials :=
                      filter (\<lambda>l. sc_userId l \<noteq> user_id u)
                        (filter (\<lambda>l. sc_credentialsId l \<notin>
                                   set (map credentials_id (List.map_filter (\<lambda>c. c) (map snd osc))))
                           (sharedCredentials (db v))),
                    authIdentities := filter (\<lambda>a. ai_userId a \<noteq> user_id u) (authIdentities (db v))\<rparr>,
                  trace := trace v @ map ActiveWorkflowRunnerRemove (active_ids (map snd osw)) @
                    [WorkflowRemove (map workflow_id ows),
                     CredentialsRemove (map credentials_id (List.map_filter (\<lambda>c. c) (map snd osc))),
                     AuthIdentityDelete (user_id u), UserDelete (user_id u)]\<rparr>))"
  using assms
  by (cases "start_deactivations env (map snd osw) v")
     (auto simp add: cascade_transaction_def step_defs emit_def Let_def
        dest!: start_deactivations_world)


lemma deleteUser_cascade_run:
  assumes "user_id (dr_user req) \<noteq> dr_id req"
    and "\<not> truthy (dr_transferId req)" and "dr_transferId req \<noteq> Some (dr_id req)"
    and "find (\<lambda>x. user_id x = dr_id req) (users (db w)) = Some u"
  shows "deleteUser env req w =
           (case transaction
                   (cascade_transaction env u
                      (map (\<lambda>l. (l, workflow_of (db w) l))
                         (filter (\<lambda>l. sw_userId l = dr_id req \<and>
                                       sw_roleId l = role_id (findWorkflowOwnerRole env))
                            (sharedWorkflows (db w))))
                      (map (\<lambda>l. (l, credentials_of (db w) l))
                         (filter (\<lambda>l. sc_userId l = dr_id req \<and>
                                       sc_roleId l = role_id (findCredentialOwnerRole env))
                            (sharedCredentials (db w)))))
                   (w\<lparr>trace := trace w @
                        [UserFindMany [dr_transferId req, Some (dr_id req)],
                         SharedWorkflowFind (dr_id req) (role_id (findWorkflowOwnerRole env)),
                         SharedCredentialsFind (dr_id req) (role_id (findCredentialOwnerRole env))]\<rparr>) of
              (Some e, w') \<Rightarrow> (Inl e, w')
            | (None, w') \<Rightarrow> after_commit env req (telemetry_of req u) u w')"
proof -
  obtain found w1 where
    fm: "userService_findMany [dr_transferId req, Some (dr_id req)] w = (found, w1)"
    by fastforce
  then have found_def:
      "found = filter (\<lambda>u. Some (user_id u) \<in> set [dr_transferId req, Some (dr_id req)]) (users (db w))"
    and w1_def: "w1 = emit (UserFindMany [dr_transferId req, Some (dr_id req)]) w"
    by (auto simp add: userService_findMany_def)
  have target: "find (\<lambda>u. user_id u = dr_id req) found = Some u"
    unfolding found_def using assms(4) by (subst find_in_filter) simp_all
  then have "found \<noteq> []"
    by auto
  moreover have "user_id u = dr_id req"
    using assms(4) by (rule find_user_id)
  ultimately show ?thesis
    using assms(1-3) fm target
    by (simp add: deleteUser_def Let_def w1_def find_SharedWorkflow_def
        find_SharedCredentials_def emit_def)
qed


lemma cascade_path_summary:
  fixes env req w u
  defines "ws \<equiv> map (workflow_of (db w))
                   (filter (\<lambda>l. sw_userId l = dr_id req \<and>
                                 sw_roleId l = role_id (findWorkflowOwnerRole env))
                      (sharedWorkflows (db w)))"
    and "cs \<equiv> map (credentials_of (db w))
                   (filter (\<lambda>l. sc_userId l = dr_id req \<and>
                                 sc_roleId l = role_id (findCredentialOwnerRole env))
                      (sharedCredentials (db w)))"
    and "r \<equiv> deleteUser env req w"
  defines "pre \<equiv> [UserFindMany [dr_transferId req, Some (dr_id req)],
                   SharedWorkflowFind (dr_id req) (role_id (findWorkflowOwnerRole env)),
                   SharedCredentialsFind (dr_id req) (role_id (findCredentialOwnerRole env)),
                   TransactionBegin] @ map ActiveWorkflowRunnerRemove (active_ids ws)"
  assumes "user_id (dr_user req) \<noteq> dr_id req"
    and "\<not> truthy (dr_transferId req)" and "dr_transferId req \<noteq> Some (dr_id req)"
    and "find (\<lambda>x. user_id x = dr_id req) (users (db w)) = Some u"
  shows "(\<exists>e tail. fst r = Inl e \<and> db (snd r) = db w \<and> new_events w (snd r) = pre @ tail \<and>
            (tail = [TransactionRollback] \<or> (\<exists>ids. tail = [WorkflowRemove ids, TransactionRollback])))
       \<or> (\<exists>ows. map Some ows = ws \<and> None \<notin> set cs \<and>
            (\<forall>y\<in>set ows. active y \<longrightarrow> activeWorkflowRunner_remove env (workflow_id y) = None) \<and>
            fst r = (case externalHooks_run env ''user.deleted'' (toPublic u) of
                       None \<Rightarrow> Inr \<lparr>success = True\<rparr>
                     | Some e \<Rightarrow> Inl e) \<and>
            new_events w (snd r) =
              pre @ [WorkflowRemove (map workflow_id ows),
                     CredentialsRemove (map credentials_id (List.map_filter (\<lambda>c. c) cs)),
                     AuthIdentityDelete (dr_id req), UserDelete (dr_id req), TransactionCommit,
                     OnUserDeletion (dr_user req) (telemetry_of req u) False,
                     ExternalHooksRun ''user.deleted'' (toPublic u)] \<and>
            workflows (db (snd r)) =
              filter (\<lambda>x. workflow_id x \<notin> set (map workflow_id ows)) (workflows (db w)) \<and>
            credentials (db (snd r)) =
              filter (\<lambda>x. credentials_id x \<notin> set (map credentials_id (List.map_filter (\<lambda>c. c) cs)))
                (credentials (db w)) \<and>
            users (db (snd r)) = filter (\<lambda>x. user_id x \<noteq> dr_id req) (users (db w)))"
    (is "?failed \<or> ?done")
proof -
  define osw where
    "osw = map (\<lambda>l. (l, workflow_of (db w) l))
             (filter (\<lambda>l. sw_userId l = dr_id req \<and>
                           sw_roleId l = role_id (findWorkflowOwnerRole env))
                (sharedWorkflows (db w)))"
  define osc where
    "osc = map (\<lambda>l. (l, credentials_of (db w) l))
             (filter (\<lambda>l. sc_userId l = dr_id req \<and>
                           sc_roleId l = role_id (findCredentialOwnerRole env))
                (sharedCredentials (db w)))"
  define w3 where
    "w3 = w\<lparr>trace := trace w @
              [UserFindMany [dr_transferId req, Some (dr_id req)],
               SharedWorkflowFind (dr_id req) (role_id (findWorkflowOwnerRole env)),
               SharedCredentialsFind (dr_id req) (role_id (findCredentialOwnerRole env))]\<rparr>"
  define w4 where "w4 = emit TransactionBegin w3"
  have uid: "user_id u = dr_id req"
    using assms(8) by (rule find_user_id)
  have rels: "map snd osw = ws" "map snd osc = cs"
    by (simp_all add: osw_def osc_def ws_def cs_def comp_def)
  have w4: "db w4 = db w" "db w3 = db w"
    "trace w4 = trace w @
       [UserFindMany [dr_transferId req, Some (dr_id req)],
        SharedWorkflowFind (dr_id req) (role_id (findWorkflowOwnerRole env)),
        SharedCredentialsFind (dr_id req) (role_id (findCredentialOwnerRole env)),
        TransactionBegin]"
    by (simp_all add: w4_def w3_def emit_simps)
  have run: "r = (case cascade_transaction env u osw osc w4 of
                    (None, v) \<Rightarrow> after_commit env req (telemetry_of req u) u (emit TransactionCommit v)
                  | (Some e, v) \<Rightarrow> (Inl e, emit TransactionRollback (v\<lparr>db := db w3\<rparr>)))"
    unfolding r_def deleteUser_cascade_run [OF assms(5-8), of env, folded osw_def osc_def w3_def]
    by (simp add: transaction_def w4_def split: prod.splits option.splits)
  show ?thesis
  proof (cases "promise_all (fst (start_deactivations env (map snd osw) w4))")
    case (Inl e)
    from cascade_transaction_failed [OF this, of u osc]
    have "r = (Inl e, emit TransactionRollback
                 (w4\<lparr>trace := trace w4 @ map ActiveWorkflowRunnerRemove (active_ids ws),
                      db := db w3\<rparr>))"
      by (simp add: run rels)
    then have "fst r = Inl e" "db (snd r) = db w"
      "new_events w (snd r) = pre @ [TransactionRollback]"
      by (simp_all add: emit_simps w4 pre_def new_events_def)
    then have ?failed
      by blast
    then show ?thesis ..
  next
    case (Inr ows)
    from promise_all_resolved [OF this] have all: "map Some ows = ws"
      by (simp add: rels)
    have quiet: "activeWorkflowRunner_remove env (workflow_id y) = None"
      if mem: "y \<in> set ows" and act: "active y" for y
    proof (rule ccontr)
      assume "activeWorkflowRunner_remove env (workflow_id y) \<noteq> None"
      then obtain e where "activeWorkflowRunner_remove env (workflow_id y) = Some e"
        by auto
      moreover from mem all have "Some y \<in> set (map snd osw)"
        by (auto simp add: rels)
      ultimately obtain e' where
        "promise_all (fst (start_deactivations env (map snd osw) w4)) = Inl e'"
        using promise_all_rejected act by blast
      with Inr show False
        by simp
    qed
    note tx = cascade_transaction_resolved [OF Inr, of u osc]
    show ?thesis
    proof (cases "None \<in> set cs")
      case True
      with tx have "fst r = Inl TypeError" "db (snd r) = db w"
        "new_events w (snd r) = pre @ [WorkflowRemove (map workflow_id ows), TransactionRollback]"
        by (simp_all add: run rels emit_simps w4 pre_def new_events_def)
      then have ?failed
        by blast
      then show ?thesis ..
    next
      case False
      with tx have "fst r = (case externalHooks_run env ''user.deleted'' (toPublic u) of
                       None \<Rightarrow> Inr \<lparr>success = True\<rparr>
                     | Some e \<Rightarrow> Inl e)"
        and "new_events w (snd r) =
              pre @ [WorkflowRemove (map workflow_id ows),
                     CredentialsRemove (map credentials_id (List.map_filter (\<lambda>c. c) cs)),
                     AuthIdentityDelete (dr_id req), UserDelete (dr_id req), TransactionCommit,
                     OnUserDeletion (dr_user req) (telemetry_of req u) False,
                     ExternalHooksRun ''user.deleted'' (toPublic u)]"
        and "workflows (db (snd r)) =
              filter (\<lambda>x. workflow_id x \<notin> set (map workflow_id ows)) (workflows (db w))"
        and "credentials (db (snd r)) =
              filter (\<lambda>x. credentials_id x \<notin> set (map credentials_id (List.map_filter (\<lambda>c. c) cs)))
                (credentials (db w))"
        and "users (db (snd r)) = filter (\<lambda>x. user_id x \<noteq> dr_id req) (users (db w))"
        by (simp_all add: run rels after_commit_result emit_simps w4 pre_def new_events_def uid)
      with all False quiet have ?done
        by blast
      then show ?thesis ..
    qed
  qed
qed

lemma dropWhile_skip:
  "(\<And>x. x \<in> set xs \<Longrightarrow> P x) \<Longrightarrow> dropWhile P (xs @ ys) = dropWhile P ys"
  by (induction xs) auto

lemma map_filter_id_mem: "Some c \<in> set cs \<Longrightarrow> c \<in> set (List.map_filter (\<lambda>c. c) cs)"
  by (induction cs) (auto simp add: List.map_filter_simps split: option.splits)

lemma occurrences_Cons:
  "occurrences e (x # xs) = (if x = e then 1 else 0) + occurrences e xs"
  by (simp add: occurrences_def)

text \<open>
  C8. A deletion without a transferee in which the target owns, through an owner link,
  a workflow W that is active: the runner is asked to deactivate W exactly once. When
  the call returns success, the transaction has committed, the deactivation precedes
  the removal of the workflows, and no workflow and no credential the target owned is
  left, nor the target's row. When the deactivation of W rejects, the call fails, the
  tables are as they were and nothing was committed. The store is assumed to keep link
  keys unique.
\<close>

theorem cascade_deactivates_then_removes:
  fixes env req w W x
  defines "w' \<equiv> snd (deleteUser env req w)"
  assumes "user_id (dr_user req) \<noteq> dr_id req"
    and "\<not> truthy (dr_transferId req)" and "dr_transferId req \<noteq> Some (dr_id req)"
    and "link_keys_ok (db w)"
    and "dr_id req \<in> set (map user_id (users (db w)))"
    and "\<lparr>sw_userId = dr_id req, sw_workflowId = W,
           sw_roleId = role_id (findWorkflowOwnerRole env)\<rparr> \<in> set (sharedWorkflows (db w))"
    and "find (\<lambda>y. workflow_id y = W) (workflows (db w)) = Some x" and "active x"
  shows "occurrences (ActiveWorkflowRunnerRemove W) (new_events w w') = 1 \<and>
         (\<forall>res. fst (deleteUser env req w) = Inr res \<longrightarrow>
            committed w w' \<and>
            list_ex is_WorkflowRemove (new_events w w') \<and>
            all_before (\<lambda>e. e = ActiveWorkflowRunnerRemove W) is_WorkflowRemove (new_events w w') \<and>
            (\<forall>l\<in>set (sharedWorkflows (db w)).
               sw_userId l = dr_id req \<and> sw_roleId l = role_id (findWorkflowOwnerRole env) \<longrightarrow>
               sw_workflowId l \<notin> set (map workflow_id (workflows (db w')))) \<and>
            (\<forall>l\<in>set (sharedCredentials (db w)).
               sc_userId l = dr_id req \<and> sc_roleId l = role_id (findCredentialOwnerRole env) \<longrightarrow>
               sc_credentialsId l \<notin> set (map credentials_id (credentials (db w')))) \<and>
            dr_id req \<notin> set (map user_id (users (db w')))) \<and>
         (activeWorkflowRunner_remove env W \<noteq> None \<longrightarrow>
            (\<exists>e. fst (deleteUser env req w) = Inl e) \<and> db w' = db w \<and> \<not> committed w w')"
proof -
  define owned where
    "owned = filter (\<lambda>l. sw_userId l = dr_id req \<and>
                          sw_roleId l = role_id (findWorkflowOwnerRole env))
               (sharedWorkflows (db w))"
  define ownedC where
    "ownedC = filter (\<lambda>l. sc_userId l = dr_id req \<and>
                           sc_roleId l = role_id (findCredentialOwnerRole env))
                (sharedCredentials (db w))"
  define ws where "ws = map (workflow_of (db w)) owned"
  define cs where "cs = map (credentials_of (db w)) ownedC"
  define pre where
    "pre = [UserFindMany [dr_transferId req, Some (dr_id req)],
            SharedWorkflowFind (dr_id req) (role_id (findWorkflowOwnerRole env)),
            SharedCredentialsFind (dr_id req) (role_id (findCredentialOwnerRole env)),
            TransactionBegin]"
  let ?link = "\<lparr>sw_userId = dr_id req, sw_workflowId = W,
                 sw_roleId = role_id (findWorkflowOwnerRole env)\<rparr>"
  from assms(6) obtain u where u: "find (\<lambda>x. user_id x = dr_id req) (users (db w)) = Some u"
    using find_present by blast
  have link: "?link \<in> set owned"
    using assms(7) by (simp add: owned_def)
  then have W_owned: "W \<in> sw_workflowId ` set owned"
    by force
  have "distinct (map sw_workflowId owned)"
    unfolding owned_def using assms(5)
    by (intro owned_workflow_ids_distinct) (simp add: link_keys_ok_def)
  from count_active [OF assms(8,9) this] W_owned
  have once: "occurrences (ActiveWorkflowRunnerRemove W)
                (map ActiveWorkflowRunnerRemove (active_ids ws)) = 1"
    by (simp add: occurrences_runner ws_def)
  have pre0: "occurrences (ActiveWorkflowRunnerRemove W) pre = 0"
    by (simp add: pre_def occurrences_def)
  have x_loaded: "Some x \<in> set ws"
  proof -
    have "workflow_of (db w) ?link = Some x"
      using assms(8) by (simp add: workflow_of_def)
    with link show ?thesis
      by (force simp add: ws_def)
  qed
  have x_id: "workflow_id x = W"
    using assms(8) by (auto dest: find_Some_mem)
  note summary = cascade_path_summary [OF assms(2-4) u, of env,
      folded owned_def ownedC_def, folded ws_def cs_def, folded w'_def]
  from summary consider
      (failed) e tail where
        "fst (deleteUser env req w) = Inl e" "db w' = db w"
        "new_events w w' =
          ([UserFindMany [dr_transferId req, Some (dr_id req)],
            SharedWorkflowFind (dr_id req) (role_id (findWorkflowOwnerRole env)),
            SharedCredentialsFind (dr_id req) (role_id (findCredentialOwnerRole env)),
            TransactionBegin] @ map ActiveWorkflowRunnerRemove (active_ids ws)) @ tail"
        "tail = [TransactionRollback] \<or> (\<exists>ids. tail = [WorkflowRemove ids, TransactionRollback])"
    | (finished) ows where
        "map Some ows = ws" "None \<notin> set cs"
        "\<forall>y\<in>set ows. active y \<longrightarrow> activeWorkflowRunner_remove env (workflow_id y) = None"
        "fst (deleteUser env req w) =
                (case externalHooks_run env ''user.deleted'' (toPublic u) of
                   None \<Rightarrow> Inr \<lparr>success = True\<rparr>
                 | Some e \<Rightarrow> Inl e)"
        "new_events w w' =
          ([UserFindMany [dr_transferId req, Some (dr_id req)],
            SharedWorkflowFind (dr_id req) (role_id (findWorkflowOwnerRole env)),
            SharedCredentialsFind (dr_id req) (role_id (findCredentialOwnerRole env)),
            TransactionBegin] @ map ActiveWorkflowRunnerRemove (active_ids ws)) @
          [WorkflowRemove (map workflow_id ows),
           CredentialsRemove (map credentials_id (List.map_filter (\<lambda>c. c) cs)),
           AuthIdentityDelete (dr_id req), UserDelete (dr_id req), TransactionCommit,
           OnUserDeletion (dr_user req) (telemetry_of req u) False,
           ExternalHooksRun ''user.deleted'' (toPublic u)]"
        "workflows (db w') =
          filter (\<lambda>x. workflow_id x \<notin> set (map workflow_id ows)) (workflows (db w))"
        "credentials (db w') =
          filter (\<lambda>x. credentials_id x \<notin> set (map credentials_id (List.map_filter (\<lambda>c. c) cs)))
            (credentials (db w))"
        "users (db w') = filter (\<lambda>x. user_id x \<noteq> dr_id req) (users (db w))"
    by blast
  then show ?thesis
  proof cases
    case failed
    note r = failed(1) and d = failed(2) and ev = failed(3) and tail = failed(4)
    from tail have t0: "occurrences (ActiveWorkflowRunnerRemove W) tail = 0"
      "TransactionCommit \<notin> set tail"
      by (auto simp add: occurrences_def)
    have "occurrences (ActiveWorkflowRunnerRemove W) (new_events w w') = 1"
      using once t0(1) by (simp add: ev occurrences_append occurrences_Cons)
    moreover have "\<not> committed w w'"
      using t0(2) by (auto simp add: committed_def ev)
    ultimately show ?thesis
      using r d by simp
  next
    case finished
    note all = finished(1) and loaded = finished(2) and quiet = finished(3) and r = finished(4)
      and ev = finished(5) and wf = finished(6) and cr = finished(7) and us = finished(8)
    let ?head = "pre @ map ActiveWorkflowRunnerRemove (active_ids ws)"
    let ?tail = "[WorkflowRemove (map workflow_id ows),
           CredentialsRemove (map credentials_id (List.map_filter (\<lambda>c. c) cs)),
           AuthIdentityDelete (dr_id req), UserDelete (dr_id req), TransactionCommit,
           OnUserDeletion (dr_user req) (telemetry_of req u) False,
           ExternalHooksRun ''user.deleted'' (toPublic u)]"
    have ev': "new_events w w' = ?head @ ?tail"
      by (simp add: ev pre_def)
    have count: "occurrences (ActiveWorkflowRunnerRemove W) (new_events w w') = 1"
      using once by (simp add: ev occurrences_append occurrences_Cons) (simp add: occurrences_def)
    have com: "committed w w'"
      by (simp add: committed_def ev)
    have removal: "list_ex is_WorkflowRemove (new_events w w')"
      by (simp add: ev)
    have "\<not> is_WorkflowRemove e" if "e \<in> set ?head" for e
      using that by (auto simp add: pre_def)
    then have "dropWhile (\<lambda>e. \<not> is_WorkflowRemove e) (?head @ ?tail) =
               dropWhile (\<lambda>e. \<not> is_WorkflowRemove e) ?tail"
      by (intro dropWhile_skip) simp
    then have order: "all_before (\<lambda>e. e = ActiveWorkflowRunnerRemove W) is_WorkflowRemove
                        (new_events w w')"
      by (simp add: all_before_def ev')
    have no_runner_failure: "activeWorkflowRunner_remove env W = None"
    proof -
      from x_loaded all have "x \<in> set ows"
        by auto
      with quiet assms(9) x_id show ?thesis
        by auto
    qed
    have wf_gone: "sw_workflowId l \<notin> set (map workflow_id (workflows (db w')))"
      if "l \<in> set (sharedWorkflows (db w))" "sw_userId l = dr_id req"
        "sw_roleId l = role_id (findWorkflowOwnerRole env)" for l
    proof -
      from that have "l \<in> set owned"
        by (simp add: owned_def)
      then have "workflow_of (db w) l \<in> set ws"
        by (simp add: ws_def)
      with all obtain y where y: "y \<in> set ows" "workflow_of (db w) l = Some y"
        by auto
      from workflow_of_id [OF y(2)] y(1) have "sw_workflowId l \<in> set (map workflow_id ows)"
        by force
      then show ?thesis
        by (auto simp add: wf)
    qed
    have cr_gone: "sc_credentialsId l \<notin> set (map credentials_id (credentials (db w')))"
      if "l \<in> set (sharedCredentials (db w))" "sc_userId l = dr_id req"
        "sc_roleId l = role_id (findCredentialOwnerRole env)" for l
    proof -
      from that have "l \<in> set ownedC"
        by (simp add: ownedC_def)
      then have "credentials_of (db w) l \<in> set cs"
        by (simp add: cs_def)
      with loaded obtain c where c: "credentials_of (db w) l = Some c" "Some c \<in> set cs"
        by (cases "credentials_of (db w) l") auto
      from c(2) have "c \<in> set (List.map_filter (\<lambda>c. c) cs)"
        by (rule map_filter_id_mem)
      with credentials_of_id [OF c(1)]
      have "sc_credentialsId l \<in> set (map credentials_id (List.map_filter (\<lambda>c. c) cs))"
        by force
      then show ?thesis
        by (auto simp add: cr)
    qed
    have user_gone: "dr_id req \<notin> set (map user_id (users (db w')))"
      by (auto simp add: us)
    show ?thesis
      using count com removal order wf_gone cr_gone user_gone no_runner_failure
      by blast
  qed
qed

theorem cascade_deactivates_then_removes_witness:
  "user_id (dr_user cascade_request) \<noteq> dr_id cascade_request \<and>
   \<not> truthy (dr_transferId cascade_request) \<and>
   dr_transferId cascade_request \<noteq> Some (dr_id cascade_request) \<and>
   link_keys_ok (db sample_world) \<and>
   dr_id cascade_request \<in> set (map user_id (users (db sample_world))) \<and>
   \<lparr>sw_userId = dr_id cascade_request, sw_workflowId = ''W1'',
     sw_roleId = role_id (findWorkflowOwnerRole sample_env)\<rparr>
     \<in> set (sharedWorkflows (db sample_world)) \<and>
   find (\<lambda>y. workflow_id y = ''W1'') (workflows (db sample_world)) =
     Some \<lparr>workflow_id = ''W1'', active = True\<rparr> \<and>
   active \<lparr>workflow_id = ''W1'', active = True\<rparr> \<and>
   fst (deleteUser sample_env cascade_request sample_world) = Inr \<lparr>success = True\<rparr> \<and>
   occurrences (ActiveWorkflowRunnerRemove ''W1'')
     (new_events sample_world (snd (deleteUser sample_env cascade_request sample_world))) = 1 \<and>
   committed sample_world (snd (deleteUser sample_env cascade_request sample_world)) \<and>
   all_before (\<lambda>e. e = ActiveWorkflowRunnerRemove ''W1'') is_WorkflowRemove
     (new_events sample_world (snd (deleteUser sample_env cascade_request sample_world))) \<and>
   dr_id cascade_request \<notin>
     set (map user_id (users (db (snd (deleteUser sample_env cascade_request sample_world))))) \<and>
   activeWorkflowRunner_remove failing_runner_env ''W1'' \<noteq> None \<and>
   (\<exists>e. fst (deleteUser failing_runner_env cascade_request sample_world) = Inl e) \<and>
   db (snd (deleteUser failing_runner_env cascade_request sample_world)) = db sample_world \<and>
   \<not> committed sample_world (snd (deleteUser failing_runner_env cascade_request sample_world))"
proof -
  have h1: "user_id (dr_user cascade_request) \<noteq> dr_id cascade_request"
    by code_simp
  have h2: "\<not> truthy (dr_transferId cascade_request)"
    by code_simp
  have h3: "dr_transferId cascade_request \<noteq> Some (dr_id cascade_request)"
    by code_simp
  have h4: "link_keys_ok (db sample_world)"
    by code_simp
  have h5: "dr_id cascade_request \<in> set (map user_id (users (db sample_world)))"
    by code_simp
  have h6: "\<lparr>sw_userId = dr_id cascade_request, sw_workflowId = ''W1'',
              sw_roleId = role_id (findWorkflowOwnerRole sample_env)\<rparr>
              \<in> set (sharedWorkflows (db sample_world))"
    by code_simp
  have h6': "\<lparr>sw_userId = dr_id cascade_request, sw_workflowId = ''W1'',
              sw_roleId = role_id (findWorkflowOwnerRole failing_runner_env)\<rparr>
              \<in> set (sharedWorkflows (db sample_world))"
    by code_simp
  have h7: "find (\<lambda>y. workflow_id y = ''W1'') (workflows (db sample_world)) =
              Some \<lparr>workflow_id = ''W1'', active = True\<rparr>"
    by code_simp
  have h8: "active \<lparr>workflow_id = ''W1'', active = True\<rparr>"
    by simp
  have ok: "fst (deleteUser sample_env cascade_request sample_world) = Inr \<lparr>success = True\<rparr>"
    by code_simp
  have bad: "activeWorkflowRunner_remove failing_runner_env ''W1'' \<noteq> None"
    by code_simp
  from cascade_deactivates_then_removes [OF h1 h2 h3 h4 h5 h6 h7 h8] ok
  have "occurrences (ActiveWorkflowRunnerRemove ''W1'')
          (new_events sample_world (snd (deleteUser sample_env cascade_request sample_world))) = 1"
    and "committed sample_world (snd (deleteUser sample_env cascade_request sample_world))"
    and "all_before (\<lambda>e. e = ActiveWorkflowRunnerRemove ''W1'') is_WorkflowRemove
          (new_events sample_world (snd (deleteUser sample_env cascade_request sample_world)))"
    and "dr_id cascade_request \<notin>
          set (map user_id (users (db (snd (deleteUser sample_env cascade_request sample_world)))))"
    by blast+
  moreover from cascade_deactivates_then_removes [OF h1 h2 h3 h4 h5 h6' h7 h8] bad
  have "\<exists>e. fst (deleteUser failing_runner_env cascade_request sample_world) = Inl e"
    and "db (snd (deleteUser failing_runner_env cascade_request sample_world)) = db sample_world"
    and "\<not> committed sample_world (snd (deleteUser failing_runner_env cascade_request sample_world))"
    by blast+
  ultimately show ?thesis
    using h1 h2 h3 h4 h5 h6 h7 h8 ok bad by blast
qed

end
